theory Spec2Isabelle
  imports Complex_Main
begin

section \<open>Batched sample vectors\<close>

text \<open>
  The engine of \<^verbatim>\<open>mcmultilegbaseengine.cpp\<close> computes on \<^verbatim>\<open>RandomVariable\<close>
  (one real per Monte Carlo path) and \<^verbatim>\<open>Filter\<close> (one boolean per path). Reals stand for
  the C++ doubles; a pointer to a vector is modelled by the vector it points to.
\<close>

type_synonym RandomVariable = "real list"
type_synonym Filter = "bool list"

text \<open>
  Modelled from the spec: the classes \<^verbatim>\<open>RandomVariable\<close> and \<^verbatim>\<open>Filter\<close> are not
  among the sources. The spec's data model describes them: a fixed-length array with one
  entry per path, on which sum, product, comparison and conditional select act entry by
  entry. All vectors of one run have the same length; on vectors of different lengths the
  functions below follow the shorter one.
\<close>

definition rv_const :: "nat \<Rightarrow> real \<Rightarrow> RandomVariable" where
  "rv_const n x = replicate n x"

definition filter_const :: "nat \<Rightarrow> bool \<Rightarrow> Filter" where
  "filter_const n b = replicate n b"

definition rv_add :: "RandomVariable \<Rightarrow> RandomVariable \<Rightarrow> RandomVariable" where
  "rv_add x y = map2 (\<lambda>a b. a + b) x y"

definition rv_sub :: "RandomVariable \<Rightarrow> RandomVariable \<Rightarrow> RandomVariable" where
  "rv_sub x y = map2 (\<lambda>a b. a - b) x y"

definition rv_mul :: "RandomVariable \<Rightarrow> RandomVariable \<Rightarrow> RandomVariable" where
  "rv_mul x y = map2 (\<lambda>a b. a * b) x y"

definition rv_div :: "RandomVariable \<Rightarrow> RandomVariable \<Rightarrow> RandomVariable" where
  "rv_div x y = map2 (\<lambda>a b. a / b) x y"

definition rv_exp :: "RandomVariable \<Rightarrow> RandomVariable" where
  "rv_exp x = map exp x"

definition rv_max :: "RandomVariable \<Rightarrow> RandomVariable \<Rightarrow> RandomVariable" where
  "rv_max x y = map2 max x y"

definition rv_gt :: "RandomVariable \<Rightarrow> RandomVariable \<Rightarrow> Filter" where
  "rv_gt x y = map2 (\<lambda>a b. b < a) x y"

definition filter_and :: "Filter \<Rightarrow> Filter \<Rightarrow> Filter" where
  "filter_and f g = map2 (\<lambda>a b. a \<and> b) f g"

definition filter_or :: "Filter \<Rightarrow> Filter \<Rightarrow> Filter" where
  "filter_or f g = map2 (\<lambda>a b. a \<or> b) f g"

definition filter_not :: "Filter \<Rightarrow> Filter" where
  "filter_not f = map Not f"

definition conditionalResult :: "Filter \<Rightarrow> RandomVariable \<Rightarrow> RandomVariable \<Rightarrow> RandomVariable" where
  "conditionalResult f x y = map (\<lambda>(c, a, b). if c then a else b) (zip f (zip x y))"

definition applyInverseFilter :: "RandomVariable \<Rightarrow> Filter \<Rightarrow> RandomVariable" where
  "applyInverseFilter x f = map2 (\<lambda>a c. if c then 0 else a) x f"

definition expectation :: "RandomVariable \<Rightarrow> RandomVariable" where
  "expectation x = rv_const (length x) (sum_list x / real (length x))"

type_synonym BasisFn = "RandomVariable list \<Rightarrow> RandomVariable"

text \<open>
  Modelled from the spec: \<^verbatim>\<open>conditionalExpectation\<close> is not among the sources. The spec's
  regression engine evaluates a basis-function regression: the coefficients weight the basis
  functions, which are applied to the regressors. The number of paths is read from the first
  regressor.
\<close>

definition conditionalExpectation :: "RandomVariable list \<Rightarrow> BasisFn list \<Rightarrow> real list \<Rightarrow> RandomVariable" where
  "conditionalExpectation regressor basisFn coefficients =
     (let n = (case regressor of [] \<Rightarrow> 0 | r # _ \<Rightarrow> length r)
      in fold (\<lambda>(c, b) r. rv_add r (rv_mul (rv_const n c) (b regressor)))
           (zip coefficients basisFn) (rv_const n 0))"

section \<open>Errors and checked access\<close>

text \<open>
  Every \<^verbatim>\<open>QL_REQUIRE\<close> and \<^verbatim>\<open>QL_FAIL\<close> of the source is an error value. An unchecked
  \<^verbatim>\<open>operator[]\<close> or \<^verbatim>\<open>front()\<close> out of range is undefined behaviour in C++; the model
  stops there with \<open>OutOfRange\<close>, so that nothing is claimed about such a run. In the
  same way a read through a pointer that dangles stops the run with \<open>DanglingPointer\<close>,
  and a floating-point division by zero, whose quotient is a NaN or an infinity that the
  reals do not have, stops it with \<open>DivisionByZero\<close>.
\<close>

datatype error =
    NoFuturePathTimes
  | InconsistentPathTimes nat nat
  | NegativeStickyIndex
  | UnexpectedInputPathSize nat nat
  | XvaTimeNotFound real
  | ExerciseTimeNotFound real
  | OutOfRange
  | DanglingPointer
  | DivisionByZero
  | StdOutOfRange
  | LegsCurrenciesMismatch nat nat
  | LegsPayerMismatch nat nat
  | AccrualStartNotBeforePayDate nat nat
  | UnhandledCoupon nat nat
  | NoSimulationTimes
  | SimulationTimeNotFound real

definition ebind :: "error + 'a \<Rightarrow> ('a \<Rightarrow> error + 'b) \<Rightarrow> error + 'b" where
  "ebind m f = (case m of Inl e \<Rightarrow> Inl e | Inr x \<Rightarrow> f x)"

definition vec_at :: "'a list \<Rightarrow> nat \<Rightarrow> error + 'a" where
  "vec_at xs i = (if i < length xs then Inr (xs ! i) else Inl OutOfRange)"

primrec mapM_err :: "('a \<Rightarrow> error + 'b) \<Rightarrow> 'a list \<Rightarrow> error + 'b list" where
  "mapM_err f [] = Inr []"
| "mapM_err f (x # xs) =
     (case f x of Inl e \<Rightarrow> Inl e
      | Inr y \<Rightarrow> (case mapM_err f xs of Inl e \<Rightarrow> Inl e | Inr ys \<Rightarrow> Inr (y # ys)))"

primrec foldM_err :: "('a \<Rightarrow> 's \<Rightarrow> error + 's) \<Rightarrow> 'a list \<Rightarrow> 's \<Rightarrow> error + 's" where
  "foldM_err f [] s = Inr s"
| "foldM_err f (x # xs) s = (case f x s of Inl e \<Rightarrow> Inl e | Inr s' \<Rightarrow> foldM_err f xs s')"

text \<open>
  A \<^verbatim>\<open>std::set<Real>\<close> is the list of its elements in increasing order.
  \<open>index_of\<close> is \<^verbatim>\<open>std::distance(s.begin(), s.find(t))\<close>: the position of \<open>t\<close>, or the
  size of the set when \<open>t\<close> is not in it. \<open>lower_bound\<close> is the position of the first
  element that is not less than \<open>t\<close>, or the size of the set when there is none.
\<close>

fun index_of :: "real list \<Rightarrow> real \<Rightarrow> nat" where
  "index_of [] t = 0"
| "index_of (x # xs) t = (if x = t then 0 else Suc (index_of xs t))"

fun lower_bound :: "real list \<Rightarrow> real \<Rightarrow> nat" where
  "lower_bound [] t = 0"
| "lower_bound (x # xs) t = (if t \<le> x then 0 else Suc (lower_bound xs t))"

section \<open>The forward replay calculator\<close>

datatype Settlement = Cash | Physical

record MultiLegBaseAmcCalculator =
  externalModelIndices :: "nat list"
  settlement :: Settlement
  exerciseXvaTimes :: "real list"
  exerciseTimes :: "real list"
  xvaTimes :: "real list"
  coeffsUndDirty :: "real list list"
  coeffsUndExInto :: "real list list"
  coeffsContinuationValue :: "real list list"
  coeffsOption :: "real list list"
  basisFns :: "BasisFn list"
  resultValue :: real
  initialState :: "real list"
  exercised :: "Filter list"

text \<open>
  The first loop of \<^verbatim>\<open>simulatePath\<close>: the relevant times of the input path and the
  states at these times, restricted to the external model indices. The state is
  \<open>(simTimes, effPaths, timeIndex)\<close>. \<^verbatim>\<open>effPaths\<close> has one row per valuation time in the
  source; writing into a row past the last one is out of range.
\<close>

definition collect_step ::
  "MultiLegBaseAmcCalculator \<Rightarrow> real list \<Rightarrow> RandomVariable list list \<Rightarrow> bool list \<Rightarrow> bool \<Rightarrow>
   nat \<Rightarrow> real list \<times> RandomVariable list list \<times> nat \<Rightarrow>
   error + (real list \<times> RandomVariable list list \<times> nat)" where
  "collect_step c pathTimes paths isRelevantTime stickyCloseOutRun i st =
     (case st of (simTimes, effPaths, timeIndex) \<Rightarrow>
        ebind (vec_at isRelevantTime i) (\<lambda>rel.
          if rel then
            (let ind = (if stickyCloseOutRun then int i - 1 else int i) in
             if ind < 0 then Inl NegativeStickyIndex
             else
               ebind (vec_at pathTimes (nat ind)) (\<lambda>t.
               ebind (vec_at paths i) (\<lambda>p.
               ebind (mapM_err (\<lambda>k. vec_at p k) (externalModelIndices c)) (\<lambda>row.
                 if externalModelIndices c \<noteq> [] \<and> length (xvaTimes c) \<le> timeIndex
                 then Inl OutOfRange
                 else Inr (simTimes @ [t], effPaths @ [row], timeIndex + 1)))))
          else Inr st))"

text \<open>
  Without an exercise date the result is the dirty value of the underlying at every
  valuation time.
\<close>

definition dirty_step ::
  "MultiLegBaseAmcCalculator \<Rightarrow> RandomVariable list list \<Rightarrow> real \<Rightarrow>
   nat \<times> RandomVariable list \<Rightarrow> error + (nat \<times> RandomVariable list)" where
  "dirty_step c effPaths t st =
     (case st of (counter, result) \<Rightarrow>
        (let ind = index_of (exerciseXvaTimes c) t in
         if \<not> ind < length (exerciseXvaTimes c) then Inl (XvaTimeNotFound t)
         else
           ebind (vec_at effPaths counter) (\<lambda>eff.
           ebind (vec_at (coeffsUndDirty c) ind) (\<lambda>coeffs.
             if counter + 1 < length result
             then Inr (counter + 1,
                       result[counter + 1 := conditionalExpectation eff (basisFns c) coeffs])
             else Inl OutOfRange))))"

text \<open>
  A pointer to a vector of path values is \<open>Some\<close> of the vector it points to, or \<open>None\<close>
  when it dangles.
\<close>

type_synonym RandomVariablePtr = "RandomVariable option"

definition deref :: "RandomVariablePtr \<Rightarrow> error + RandomVariable" where
  "deref ptr = (case ptr of None \<Rightarrow> Inl DanglingPointer | Some v \<Rightarrow> Inr v)"

text \<open>
  The exercise decision at one exercise time \<open>t\<close>. \<open>None\<close> is the \<^verbatim>\<open>break\<close> of the
  source: the exercise time is after the last valuation time. Otherwise the state is
  interpolated linearly between the valuation times around \<open>t\<close>, and the new indicator is
  written at position \<open>counter + 1\<close>.

  The interpolation computes the weights \<^verbatim>\<open>(time2 - t) / (time2 - time1)\<close> and
  \<^verbatim>\<open>(t - time1) / (time2 - time1)\<close> anew for every model index, then reads the two
  states through their pointers. The divisor is zero when the first valuation time is
  zero and the exercise time is not after it (\<^verbatim>\<open>time1\<close> is then the literal 0.0).
\<close>

definition interpolate_state ::
  "nat \<Rightarrow> nat \<Rightarrow> real \<Rightarrow> real \<Rightarrow> real \<Rightarrow> RandomVariablePtr list \<Rightarrow> RandomVariablePtr list \<Rightarrow>
   error + RandomVariable list" where
  "interpolate_state m samples t time1 time2 s1 s2 =
     mapM_err (\<lambda>j.
       if time2 - time1 = 0 then Inl DivisionByZero
       else
         ebind (vec_at s1 j) (\<lambda>p1.
         ebind (deref p1) (\<lambda>a.
         ebind (vec_at s2 j) (\<lambda>p2.
         ebind (deref p2) (\<lambda>b.
           Inr (rv_add (rv_mul (rv_const samples ((time2 - t) / (time2 - time1))) a)
                       (rv_mul (rv_const samples ((t - time1) / (time2 - time1))) b))))))) [0..<m]"

definition indicator_step ::
  "MultiLegBaseAmcCalculator \<Rightarrow> nat \<Rightarrow> RandomVariable list list \<Rightarrow> RandomVariablePtr list \<Rightarrow>
   real \<Rightarrow> nat \<Rightarrow> Filter list \<Rightarrow> error + Filter list option" where
  "indicator_step c samples effPaths initialStatePointer t counter ex =
     (let ind = index_of (exerciseXvaTimes c) t in
      if ind = length (exerciseXvaTimes c) then Inl (ExerciseTimeNotFound t)
      else
        (let t2 = lower_bound (xvaTimes c) t in
         if t2 = length (xvaTimes c) then Inr None
         else
           ebind (vec_at (xvaTimes c) t2) (\<lambda>time2.
           ebind (vec_at effPaths t2) (\<lambda>s2.
           ebind (if t2 = 0 then Inr (0, initialStatePointer)
                  else ebind (vec_at (xvaTimes c) (t2 - 1)) (\<lambda>time1.
                       ebind (vec_at effPaths (t2 - 1)) (\<lambda>s1. Inr (time1, map Some s1)))) (\<lambda>(time1, s1).
           ebind (interpolate_state (length (externalModelIndices c)) samples t time1 time2 s1
                    (map Some s2)) (\<lambda>sp.
           ebind (vec_at (coeffsUndExInto c) ind) (\<lambda>cEx.
           ebind (vec_at (coeffsContinuationValue c) ind) (\<lambda>cCont.
             (let exerciseValue = conditionalExpectation sp (basisFns c) cEx;
                  continuationValue = conditionalExpectation sp (basisFns c) cCont
              in
                ebind (vec_at ex counter) (\<lambda>prev.
                  if counter + 1 < length ex
                  then Inr (Some (ex[counter + 1 :=
                         filter_and (filter_and (filter_not prev) (rv_gt exerciseValue continuationValue))
                                    (rv_gt exerciseValue (rv_const samples 0))]))
                  else Inl OutOfRange))))))))))"

fun indicator_loop ::
  "MultiLegBaseAmcCalculator \<Rightarrow> nat \<Rightarrow> RandomVariable list list \<Rightarrow> RandomVariablePtr list \<Rightarrow>
   real list \<Rightarrow> nat \<Rightarrow> Filter list \<Rightarrow> error + Filter list" where
  "indicator_loop c samples effPaths isp [] counter ex = Inr ex"
| "indicator_loop c samples effPaths isp (t # ts) counter ex =
     (case indicator_step c samples effPaths isp t counter ex of
        Inl e \<Rightarrow> Inl e
      | Inr None \<Rightarrow> Inr ex
      | Inr (Some ex') \<Rightarrow> indicator_loop c samples effPaths isp ts (counter + 1) ex')"

text \<open>
  The last loop of \<^verbatim>\<open>simulatePath\<close> walks the exercise and valuation times in
  increasing order and fills the result from the exercise indicators.
\<close>

record PopulateState =
  counter :: nat
  xvaCounter :: nat
  exerciseCounter :: nat
  cashExerciseValueWasAccountedForOnXvaTime :: Filter
  wasExercised :: Filter
  result :: "RandomVariable list"

definition populate_init :: "nat \<Rightarrow> RandomVariable list \<Rightarrow> PopulateState" where
  "populate_init samples res =
     \<lparr> counter = 0, xvaCounter = 0, exerciseCounter = 0,
       cashExerciseValueWasAccountedForOnXvaTime = filter_const samples False,
       wasExercised = filter_const samples False,
       result = res \<rparr>"

definition exercise_advance ::
  "MultiLegBaseAmcCalculator \<Rightarrow> Filter list \<Rightarrow> real \<Rightarrow> PopulateState \<Rightarrow> error + PopulateState" where
  "exercise_advance c ex t st =
     (if t \<in> set (exerciseTimes c)
      then ebind (vec_at ex (exerciseCounter st + 1)) (\<lambda>e.
             Inr (st\<lparr> exerciseCounter := exerciseCounter st + 1,
                      wasExercised := filter_or (wasExercised st) e \<rparr>))
      else Inr st)"

definition exercisedValue_at ::
  "MultiLegBaseAmcCalculator \<Rightarrow> Filter \<Rightarrow> RandomVariable list \<Rightarrow> real list \<Rightarrow> real list \<Rightarrow>
   RandomVariable" where
  "exercisedValue_at c ind eff cEx cDirty =
     conditionalResult ind (conditionalExpectation eff (basisFns c) cEx)
                           (conditionalExpectation eff (basisFns c) cDirty)"

definition xva_update ::
  "MultiLegBaseAmcCalculator \<Rightarrow> nat \<Rightarrow> RandomVariable list list \<Rightarrow> Filter list \<Rightarrow> real \<Rightarrow>
   PopulateState \<Rightarrow> error + PopulateState" where
  "xva_update c samples effPaths ex t st =
     (if t \<in> set (xvaTimes c)
      then
        ebind (vec_at effPaths (xvaCounter st)) (\<lambda>eff.
        ebind (vec_at (coeffsOption c) (counter st)) (\<lambda>cOpt.
        ebind (vec_at ex (exerciseCounter st)) (\<lambda>ind.
        ebind (vec_at (coeffsUndExInto c) (counter st)) (\<lambda>cEx.
        ebind (vec_at (coeffsUndDirty c) (counter st)) (\<lambda>cDirty.
          (let optionValue = conditionalExpectation eff (basisFns c) cOpt;
               exercisedValue = exercisedValue_at c ind eff cEx cDirty;
               acc = cashExerciseValueWasAccountedForOnXvaTime st;
               exercisedValue' =
                 (if settlement c = Cash then applyInverseFilter exercisedValue acc
                  else exercisedValue);
               acc' = (if settlement c = Cash then filter_or acc (wasExercised st) else acc)
           in
             if xvaCounter st + 1 < length (result st)
             then Inr (st\<lparr> cashExerciseValueWasAccountedForOnXvaTime := acc',
                           result := (result st)[xvaCounter st + 1 :=
                              rv_max (rv_const samples 0)
                                (conditionalResult (wasExercised st) exercisedValue' optionValue)],
                           xvaCounter := xvaCounter st + 1 \<rparr>)
             else Inl OutOfRange))))))
      else Inr st)"

definition populate_step ::
  "MultiLegBaseAmcCalculator \<Rightarrow> nat \<Rightarrow> RandomVariable list list \<Rightarrow> Filter list \<Rightarrow> real \<Rightarrow>
   PopulateState \<Rightarrow> error + PopulateState" where
  "populate_step c samples effPaths ex t st =
     ebind (exercise_advance c ex t st) (\<lambda>st1.
     ebind (xva_update c samples effPaths ex t st1) (\<lambda>st2.
       Inr (st2\<lparr> counter := counter st2 + 1 \<rparr>)))"

definition populate ::
  "MultiLegBaseAmcCalculator \<Rightarrow> nat \<Rightarrow> RandomVariable list list \<Rightarrow> Filter list \<Rightarrow> real list \<Rightarrow>
   PopulateState \<Rightarrow> error + PopulateState" where
  "populate c samples effPaths ex ts st = foldM_err (populate_step c samples effPaths ex) ts st"

text \<open>
  \<^verbatim>\<open>paths.front().front().size()\<close>: the number of paths, read from the first state of
  the first path time.
\<close>

definition front_size :: "RandomVariable list list \<Rightarrow> error + nat" where
  "front_size paths =
     (case paths of [] \<Rightarrow> Inl OutOfRange
      | p # _ \<Rightarrow> (case p of [] \<Rightarrow> Inl OutOfRange | r # _ \<Rightarrow> Inr (length r)))"

text \<open>
  The initial state and the pointers to it. The source starts from an empty
  \<^verbatim>\<open>std::vector<RandomVariable>\<close>, and for every external model index it appends a
  vector of path values with \<^verbatim>\<open>push_back\<close> and keeps \<^verbatim>\<open>&initialState.back()\<close>; it
  reserves nothing. A \<^verbatim>\<open>push_back\<close> onto a vector that is full moves the elements to
  new storage, and every pointer taken before dangles. The state of the loop is the
  capacity and the pointers taken so far (as many as the vector has elements). The
  capacity grows as in libstdc++ and libc++, to 1 and then by doubling; in MSVC too the
  capacity is 1 after the first \<^verbatim>\<open>push_back\<close>, so that in all three the second
  \<^verbatim>\<open>push_back\<close> leaves the first pointer dangling.
\<close>

definition push_back_pointer ::
  "RandomVariable \<Rightarrow> nat \<times> RandomVariablePtr list \<Rightarrow> nat \<times> RandomVariablePtr list" where
  "push_back_pointer v st =
     (case st of (capacity, pointers) \<Rightarrow>
        if length pointers = capacity
        then (max 1 (2 * capacity), map (\<lambda>ptr. None) pointers @ [Some v])
        else (capacity, pointers @ [Some v]))"

definition initial_state_rvs ::
  "MultiLegBaseAmcCalculator \<Rightarrow> nat \<Rightarrow> error + RandomVariablePtr list" where
  "initial_state_rvs c samples =
     ebind (mapM_err (\<lambda>j. ebind (vec_at (initialState c) j) (\<lambda>v. Inr (rv_const samples v)))
              [0..<length (externalModelIndices c)])
       (\<lambda>initialState'. Inr (snd (fold push_back_pointer initialState' (0, []))))"

definition collect_paths ::
  "MultiLegBaseAmcCalculator \<Rightarrow> real list \<Rightarrow> RandomVariable list list \<Rightarrow> bool list \<Rightarrow> bool \<Rightarrow>
   error + (real list \<times> RandomVariable list list \<times> nat)" where
  "collect_paths c pathTimes paths isRelevantTime stickyCloseOutRun =
     foldM_err (collect_step c pathTimes paths isRelevantTime stickyCloseOutRun)
       [0..<length pathTimes] ([], [], 0)"

text \<open>
  The result vector when the loops start: one entry per relevant time and one for the
  reference date, which holds the value of the calibration.
\<close>

definition initial_result :: "MultiLegBaseAmcCalculator \<Rightarrow> nat \<Rightarrow> nat \<Rightarrow> RandomVariable list" where
  "initial_result c samples n =
     (replicate (n + 1) (rv_const samples 0))[0 := rv_const samples (resultValue c)]"

text \<open>
  The exercise indicators of a run: computed afresh, or on a sticky close-out run the
  ones the calculator kept from its last run.
\<close>

definition exercise_indicators ::
  "MultiLegBaseAmcCalculator \<Rightarrow> nat \<Rightarrow> RandomVariable list list \<Rightarrow> RandomVariablePtr list \<Rightarrow> bool \<Rightarrow>
   error + Filter list" where
  "exercise_indicators c samples effPaths initialStatePointer stickyCloseOutRun =
     (if stickyCloseOutRun then Inr (exercised c)
      else indicator_loop c samples effPaths initialStatePointer (exerciseTimes c) 0
             (replicate (length (exerciseTimes c) + 1) (filter_const samples False)))"

definition simulatePath ::
  "MultiLegBaseAmcCalculator \<Rightarrow> real list \<Rightarrow> RandomVariable list list \<Rightarrow> bool list \<Rightarrow> bool \<Rightarrow>
   error + (RandomVariable list \<times> MultiLegBaseAmcCalculator)" where
  "simulatePath c pathTimes paths isRelevantTime stickyCloseOutRun =
     (if paths = [] then Inl NoFuturePathTimes
      else if length pathTimes \<noteq> length paths
      then Inl (InconsistentPathTimes (length pathTimes) (length paths))
      else
        ebind (collect_paths c pathTimes paths isRelevantTime stickyCloseOutRun)
          (\<lambda>(simTimes, effPaths, timeIndex).
          if length simTimes \<noteq> length (xvaTimes c)
          then Inl (UnexpectedInputPathSize (length (xvaTimes c)) (length simTimes))
          else
            ebind (front_size paths) (\<lambda>samples.
            ebind (initial_state_rvs c samples) (\<lambda>initialStatePointer.
              if exerciseTimes c = []
              then ebind (foldM_err (dirty_step c effPaths) (xvaTimes c)
                            (0, initial_result c samples (length simTimes)))
                     (\<lambda>(n, res). Inr (res, c))
              else
                ebind (exercise_indicators c samples effPaths initialStatePointer
                         stickyCloseOutRun) (\<lambda>ex.
                ebind (populate c samples effPaths ex (exerciseXvaTimes c)
                         (populate_init samples (initial_result c samples (length simTimes))))
                  (\<lambda>st. Inr (result st, c\<lparr> exercised := ex \<rparr>)))))))"

section \<open>Cash flows and their classification\<close>

text \<open>
  A date is a calendar day; dates are compared as the calendar orders them. A currency is
  its code. Times are the year fractions the model's term structure gives from its
  reference date (\<^verbatim>\<open>timeFromReference\<close>); the day counter behind them belongs to the
  model and is a parameter of the engine.
\<close>

datatype Date = Date (year: int) (month: int) (day: int)

definition date_less :: "Date \<Rightarrow> Date \<Rightarrow> bool" where
  "date_less a b =
     (year a < year b \<or> (year a = year b \<and> (month a < month b \<or> (month a = month b \<and> day a < day b))))"

definition date_le :: "Date \<Rightarrow> Date \<Rightarrow> bool" where
  "date_le a b = (a = b \<or> date_less a b)"

type_synonym Currency = string

datatype AssetType = IR | FX

text \<open>
  What the engine reads from a cash flow. \<open>date\<close> is the pay date. \<open>firstValueDate\<close>
  is \<^verbatim>\<open>valueDates().front()\<close> of an overnight coupon and \<^verbatim>\<open>fixingDates().front()\<close> of
  a BMA or sub-periods coupon. A cap or floor that is \<^verbatim>\<open>Null<Real>()\<close> is \<open>None\<close>.
\<close>

record FlowData =
  date :: Date
  accrualStartDate :: Date
  amount :: real
  fxFixingDate :: Date
  fxSourceCurrency :: Currency
  fxTargetCurrency :: Currency
  fxIndexFixing :: real
  foreignAmount :: real
  fixingDate :: Date
  firstValueDate :: Date
  rate :: real
  spread :: real
  gearing :: real
  indexCurrency :: Currency
  nominal :: real
  accrualPeriod :: real
  effectiveCap :: "real option"
  effectiveFloor :: "real option"

text \<open>
  The dynamic type of a cash flow, one constructor for each class
  \<^verbatim>\<open>createCashflowInfo\<close> casts to; a wrapper holds its underlying flow.
  \<open>OtherCoupon\<close> is any other class derived from \<^verbatim>\<open>Coupon\<close>, \<open>OtherCashFlow\<close> any other
  class derived from \<^verbatim>\<open>CashFlow\<close>.
\<close>

datatype CashFlow =
    FixedRateCoupon FlowData
  | SimpleCashFlow FlowData
  | FXLinkedCashFlow FlowData
  | FloatingRateFXLinkedNotionalCoupon FlowData CashFlow
  | StrippedCappedFlooredCoupon FlowData CashFlow
  | CappedFlooredCoupon FlowData CashFlow
  | IborCoupon FlowData
  | CmsCoupon FlowData
  | OvernightIndexedCoupon FlowData
  | CappedFlooredOvernightIndexedCoupon FlowData
  | AverageONIndexedCoupon FlowData
  | CappedFlooredAverageONIndexedCoupon FlowData
  | AverageBMACoupon FlowData
  | CappedFlooredAverageBMACoupon FlowData
  | SubPeriodsCoupon1 FlowData
  | OtherCoupon FlowData
  | OtherCashFlow FlowData

fun flowData :: "CashFlow \<Rightarrow> FlowData" where
  "flowData (FixedRateCoupon d) = d"
| "flowData (SimpleCashFlow d) = d"
| "flowData (FXLinkedCashFlow d) = d"
| "flowData (FloatingRateFXLinkedNotionalCoupon d u) = d"
| "flowData (StrippedCappedFlooredCoupon d u) = d"
| "flowData (CappedFlooredCoupon d u) = d"
| "flowData (IborCoupon d) = d"
| "flowData (CmsCoupon d) = d"
| "flowData (OvernightIndexedCoupon d) = d"
| "flowData (CappedFlooredOvernightIndexedCoupon d) = d"
| "flowData (AverageONIndexedCoupon d) = d"
| "flowData (CappedFlooredAverageONIndexedCoupon d) = d"
| "flowData (AverageBMACoupon d) = d"
| "flowData (CappedFlooredAverageBMACoupon d) = d"
| "flowData (SubPeriodsCoupon1 d) = d"
| "flowData (OtherCoupon d) = d"
| "flowData (OtherCashFlow d) = d"

text \<open>\<^verbatim>\<open>dynamic_pointer_cast<Coupon>(flow)\<close> succeeds.\<close>

fun isCoupon :: "CashFlow \<Rightarrow> bool" where
  "isCoupon (SimpleCashFlow d) = False"
| "isCoupon (FXLinkedCashFlow d) = False"
| "isCoupon (OtherCashFlow d) = False"
| "isCoupon f = True"

text \<open>
  The descriptor of a cash flow. The amount function takes the number of paths and, for
  each of the descriptor's simulation times, the states at its model indices. Its reads
  \<^verbatim>\<open>states.at(i).at(j)\<close> are checked in C++ and throw when out of range
  (\<open>StdOutOfRange\<close>).
\<close>

record CashflowInfo =
  legNo :: nat
  cfNo :: nat
  payTime :: real
  payCcyIndex :: nat
  payer :: real
  exIntoCriterionTime :: real
  simulationTimes :: "real list"
  modelIndices :: "nat list list"
  amountCalculator :: "nat \<Rightarrow> RandomVariable list list \<Rightarrow> error + RandomVariable"

text \<open>
  The engine with the data the derived engines set (\<^verbatim>\<open>leg_\<close>, \<^verbatim>\<open>currency_\<close>,
  \<^verbatim>\<open>payer_\<close>, \<^verbatim>\<open>exercise_\<close>, \<^verbatim>\<open>optionSettlement_\<close>; a field carries the
  member's name without its final underscore, and a prime where the name is taken) and
  with what it asks of its collaborators, which are not among the sources and are taken as
  parameters: of the model the reference date, the time of a date, the index of a currency,
  the position of a factor in the state, the size and the initial values of the state
  process and the numeraire at time zero; the path generator (\<open>pathGenerator grid i k j\<close>
  is the value of factor \<open>k\<close> at position \<open>j\<close> of the time grid on the \<open>i\<close>-th path
  drawn); the basis system and the regression; and the vectorised LGM functions, by currency
  index. \<open>exercise = None\<close> is the null pointer.
\<close>

record McMultiLegBaseEngine =
  leg :: "CashFlow list list"
  currency :: "Currency list"
  payer' :: "real list"
  exercise :: "Date list option"
  optionSettlement :: Settlement
  simulationDates :: "Date list"
  externalModelIndices' :: "nat list"
  calibrationSamples :: nat
  referenceDate :: Date
  timeFromReference :: "Date \<Rightarrow> real"
  ccyIndex :: "Currency \<Rightarrow> nat"
  pIdx :: "AssetType \<Rightarrow> nat \<Rightarrow> nat"
  stateProcessSize :: nat
  initialValues :: "real list"
  modelNumeraire :: real
  pathGenerator :: "real list \<Rightarrow> nat \<Rightarrow> nat \<Rightarrow> nat \<Rightarrow> real"
  basisSystem :: "BasisFn list"
  regressionCoefficients ::
    "RandomVariable \<Rightarrow> RandomVariable list \<Rightarrow> BasisFn list \<Rightarrow> Filter \<Rightarrow> real list"
  lgmNumeraire :: "real \<Rightarrow> RandomVariable \<Rightarrow> RandomVariable"
  lgmFixing :: "nat \<Rightarrow> CashFlow \<Rightarrow> real \<Rightarrow> RandomVariable \<Rightarrow> RandomVariable"
  lgmCompoundedOnRate :: "nat \<Rightarrow> CashFlow \<Rightarrow> real \<Rightarrow> RandomVariable \<Rightarrow> RandomVariable"
  lgmAveragedOnRate :: "nat \<Rightarrow> CashFlow \<Rightarrow> real \<Rightarrow> RandomVariable \<Rightarrow> RandomVariable"
  lgmAveragedBmaRate :: "nat \<Rightarrow> CashFlow \<Rightarrow> real \<Rightarrow> RandomVariable \<Rightarrow> RandomVariable"
  lgmSubPeriodsRate :: "nat \<Rightarrow> CashFlow \<Rightarrow> real \<Rightarrow> RandomVariable \<Rightarrow> RandomVariable"

definition tinyTime :: real where
  "tinyTime = 1 / 10 ^ 10"

text \<open>
  What the wrappers leave for the coupon they hold. The \<^verbatim>\<open>Null\<close> values the source
  compares with are \<open>None\<close>; the currency indices and the foreign nominal are read only
  where \<open>isFxLinked\<close> has set them.
\<close>

record WrapperInfo =
  isCapFloored :: bool
  isNakedOption :: bool
  effCap :: "real option"
  effFloor :: "real option"
  isFxLinked :: bool
  fxLinkedForeignNominal :: real
  fxLinkedSourceCcyIdx :: nat
  fxLinkedTargetCcyIdx :: nat
  fxLinkedFixedFxRate :: "real option"
  fxLinkedSimTime :: "real option"
  fxLinkedModelIndices :: "nat list"

definition noWrapper :: WrapperInfo where
  "noWrapper =
     \<lparr> isCapFloored = False, isNakedOption = False, effCap = None, effFloor = None,
       isFxLinked = False, fxLinkedForeignNominal = 0, fxLinkedSourceCcyIdx = 0,
       fxLinkedTargetCcyIdx = 0, fxLinkedFixedFxRate = None, fxLinkedSimTime = None,
       fxLinkedModelIndices = [] \<rparr>"

text \<open>The model indices of the FX factors of a source and a target currency.\<close>

definition fxModelIndices :: "McMultiLegBaseEngine \<Rightarrow> nat \<Rightarrow> nat \<Rightarrow> nat list" where
  "fxModelIndices e src tgt =
     (if 0 < src then [pIdx e FX (src - 1)] else []) @ (if 0 < tgt then [pIdx e FX (tgt - 1)] else [])"

definition unwrapFxLinked :: "McMultiLegBaseEngine \<Rightarrow> WrapperInfo \<times> CashFlow \<Rightarrow> WrapperInfo \<times> CashFlow" where
  "unwrapFxLinked e wfl =
     (case wfl of (w, flow) \<Rightarrow>
        (case flow of
           FloatingRateFXLinkedNotionalCoupon d u \<Rightarrow>
             (let src = ccyIndex e (fxSourceCurrency d); tgt = ccyIndex e (fxTargetCurrency d);
                  past = date_le (fxFixingDate d) (referenceDate e)
              in (w\<lparr> isFxLinked := True, fxLinkedSourceCcyIdx := src, fxLinkedTargetCcyIdx := tgt,
                      fxLinkedFixedFxRate := (if past then Some (fxIndexFixing d) else None),
                      fxLinkedSimTime := (if past then None else Some (timeFromReference e (fxFixingDate d))),
                      fxLinkedModelIndices := (if past then [] else fxModelIndices e src tgt),
                      fxLinkedForeignNominal := foreignAmount d \<rparr>, u))
         | _ \<Rightarrow> (w, flow)))"

definition unwrapStripped :: "WrapperInfo \<times> CashFlow \<Rightarrow> WrapperInfo \<times> CashFlow" where
  "unwrapStripped wfl =
     (case wfl of (w, flow) \<Rightarrow>
        (case flow of
           StrippedCappedFlooredCoupon d u \<Rightarrow> (w\<lparr> isNakedOption := True \<rparr>, u)
         | _ \<Rightarrow> (w, flow)))"

definition unwrapCapFloor :: "WrapperInfo \<times> CashFlow \<Rightarrow> WrapperInfo \<times> CashFlow" where
  "unwrapCapFloor wfl =
     (case wfl of (w, flow) \<Rightarrow>
        (case flow of
           CappedFlooredCoupon d u \<Rightarrow>
             (w\<lparr> isCapFloored := True, effCap := effectiveCap d, effFloor := effectiveFloor d \<rparr>, u)
         | _ \<Rightarrow> (w, flow)))"

subsection \<open>Amount functions\<close>

definition state_at :: "RandomVariable list list \<Rightarrow> nat \<Rightarrow> nat \<Rightarrow> error + RandomVariable" where
  "state_at states i j =
     (if i < length states \<and> j < length (states ! i) then Inr (states ! i ! j)
      else Inl StdOutOfRange)"

text \<open>
  \<^verbatim>\<open>fxSource\<close> and \<^verbatim>\<open>fxTarget\<close> from the simulated FX states at position \<open>k\<close> of the
  descriptor's simulation times.
\<close>

definition fxSourceTarget ::
  "nat \<Rightarrow> nat \<Rightarrow> nat \<Rightarrow> RandomVariable list list \<Rightarrow> nat \<Rightarrow>
   error + (RandomVariable \<times> RandomVariable)" where
  "fxSourceTarget src tgt n states k =
     ebind (if 0 < src then ebind (state_at states k 0) (\<lambda>s. Inr (rv_exp s)) else Inr (rv_const n 1))
       (\<lambda>fxSource.
     ebind (if 0 < tgt then ebind (state_at states k (if 0 < src then 1 else 0)) (\<lambda>s. Inr (rv_exp s))
            else Inr (rv_const n 1))
       (\<lambda>fxTarget. Inr (fxSource, fxTarget)))"

definition fxFixingOf :: "WrapperInfo \<Rightarrow> nat \<Rightarrow> RandomVariable list list \<Rightarrow> error + RandomVariable" where
  "fxFixingOf w n states =
     (if isFxLinked w
      then (case fxLinkedFixedFxRate w of
              Some r \<Rightarrow> Inr (rv_const n r)
            | None \<Rightarrow>
                ebind (fxSourceTarget (fxLinkedSourceCcyIdx w) (fxLinkedTargetCcyIdx w) n states 1)
                  (\<lambda>(fxSource, fxTarget). Inr (rv_div fxSource fxTarget)))
      else Inr (rv_const n 1))"

definition fixedAmount :: "FlowData \<Rightarrow> nat \<Rightarrow> RandomVariable list list \<Rightarrow> error + RandomVariable" where
  "fixedAmount d n states = Inr (rv_const n (amount d))"

definition fxLinkedAmount ::
  "McMultiLegBaseEngine \<Rightarrow> FlowData \<Rightarrow> nat \<Rightarrow> RandomVariable list list \<Rightarrow>
   error + RandomVariable" where
  "fxLinkedAmount e d n states =
     (if date_le (fxFixingDate d) (referenceDate e) then Inr (rv_const n (amount d))
      else ebind (fxSourceTarget (ccyIndex e (fxSourceCurrency d)) (ccyIndex e (fxTargetCurrency d))
                    n states 0)
             (\<lambda>(fxSource, fxTarget).
                Inr (rv_div (rv_mul (rv_const n (foreignAmount d)) fxSource) fxTarget)))"

text \<open>The rate of an Ibor or CMS coupon from its fixing, with the wrappers' cap and floor.\<close>

definition effectiveRateOf :: "WrapperInfo \<Rightarrow> FlowData \<Rightarrow> nat \<Rightarrow> RandomVariable \<Rightarrow> RandomVariable" where
  "effectiveRateOf w d n fixing =
     (if isCapFloored w
      then
        (let swapletRate =
               (if \<not> isNakedOption w
                then rv_add (rv_mul (rv_const n (gearing d)) fixing) (rv_const n (spread d))
                else rv_const n 0);
             floorletRate =
               (case effFloor w of
                  Some f \<Rightarrow> rv_mul (rv_const n (gearing d))
                              (rv_max (rv_sub (rv_const n f) fixing) (rv_const n 0))
                | None \<Rightarrow> rv_const n 0);
             capletRate =
               (case effCap w of
                  Some cp \<Rightarrow> rv_mul (rv_mul (rv_const n (gearing d))
                                        (rv_max (rv_sub fixing (rv_const n cp)) (rv_const n 0)))
                               (rv_const n (if isNakedOption w \<and> effFloor w = None then - 1 else 1))
                | None \<Rightarrow> rv_const n 0)
         in rv_sub (rv_add swapletRate floorletRate) capletRate)
      else rv_add (rv_mul (rv_const n (gearing d)) fixing) (rv_const n (spread d)))"

definition nominalOf :: "WrapperInfo \<Rightarrow> FlowData \<Rightarrow> real" where
  "nominalOf w d = (if isFxLinked w then fxLinkedForeignNominal w else nominal d) * accrualPeriod d"

definition iborAmount ::
  "McMultiLegBaseEngine \<Rightarrow> WrapperInfo \<Rightarrow> CashFlow \<Rightarrow> real option \<Rightarrow> real \<Rightarrow>
   nat \<Rightarrow> RandomVariable list list \<Rightarrow> error + RandomVariable" where
  "iborAmount e w flow fixedRate simTime n states =
     (let d = flowData flow in
      ebind (case fixedRate of
               Some r \<Rightarrow> Inr (rv_const n r)
             | None \<Rightarrow> ebind (state_at states 0 0)
                         (\<lambda>s. Inr (lgmFixing e (ccyIndex e (indexCurrency d)) flow simTime s)))
        (\<lambda>fixing.
      ebind (fxFixingOf w n states) (\<lambda>fxFixing.
        Inr (rv_mul (rv_mul (rv_const n (nominalOf w d)) (effectiveRateOf w d n fixing)) fxFixing))))"

definition rateAmount ::
  "(nat \<Rightarrow> CashFlow \<Rightarrow> real \<Rightarrow> RandomVariable \<Rightarrow> RandomVariable) \<Rightarrow>
   McMultiLegBaseEngine \<Rightarrow> WrapperInfo \<Rightarrow> CashFlow \<Rightarrow> FlowData \<Rightarrow> real \<Rightarrow>
   nat \<Rightarrow> RandomVariable list list \<Rightarrow> error + RandomVariable" where
  "rateAmount lgmRate e w flow d simTime n states =
     ebind (state_at states 0 0) (\<lambda>s.
       (let effectiveRate = lgmRate (ccyIndex e (indexCurrency d)) flow simTime s in
        ebind (fxFixingOf w n states) (\<lambda>fxFixing.
          Inr (rv_mul (rv_mul (rv_const n (nominalOf w d)) effectiveRate) fxFixing))))"

subsection \<open>createCashflowInfo\<close>

text \<open>
  The common part: pay time, pay currency, payer, and the exercise-into cutoff. For a
  coupon the source requires the accrual start date to be before the pay date and sets the
  cutoff to the time of the accrual start plus \<open>tinyTime\<close>; for any other flow the cutoff is
  the pay time.
\<close>

definition commonInfo ::
  "McMultiLegBaseEngine \<Rightarrow> CashFlow \<Rightarrow> Currency \<Rightarrow> real \<Rightarrow> nat \<Rightarrow> nat \<Rightarrow> error + CashflowInfo" where
  "commonInfo e flow payCcy payerSign l k =
     (let d = flowData flow;
          info = \<lparr> legNo = l, cfNo = k, payTime = timeFromReference e (date d),
                   payCcyIndex = ccyIndex e payCcy, payer = payerSign,
                   exIntoCriterionTime = timeFromReference e (date d),
                   simulationTimes = [], modelIndices = [],
                   amountCalculator = fixedAmount d \<rparr>
      in if isCoupon flow
         then (if date_less (accrualStartDate d) (date d)
               then Inr (info\<lparr> exIntoCriterionTime :=
                                timeFromReference e (accrualStartDate d) + tinyTime \<rparr>)
               else Inl (AccrualStartNotBeforePayDate l k))
         else Inr info)"

text \<open>
  The simulation times and model indices of a floating coupon: its own fixing time when
  \<open>own\<close> holds, then the FX fixing time of an FX-linked wrapper when that is simulated.
\<close>

definition floatingInfo ::
  "McMultiLegBaseEngine \<Rightarrow> CashflowInfo \<Rightarrow> WrapperInfo \<Rightarrow> FlowData \<Rightarrow> bool \<Rightarrow> real \<Rightarrow>
   (nat \<Rightarrow> RandomVariable list list \<Rightarrow> error + RandomVariable) \<Rightarrow> CashflowInfo" where
  "floatingInfo e info w d own simTime calc =
     info\<lparr> simulationTimes :=
             (if own then [simTime] else []) @
             (case fxLinkedSimTime w of Some t \<Rightarrow> [t] | None \<Rightarrow> []),
           modelIndices :=
             (if own then [[pIdx e IR (ccyIndex e (indexCurrency d))]] else []) @
             (case fxLinkedSimTime w of Some t \<Rightarrow> [fxLinkedModelIndices w] | None \<Rightarrow> []),
           amountCalculator := calc \<rparr>"

definition iborInfo ::
  "McMultiLegBaseEngine \<Rightarrow> CashflowInfo \<Rightarrow> WrapperInfo \<Rightarrow> CashFlow \<Rightarrow> FlowData \<Rightarrow> CashflowInfo" where
  "iborInfo e info w flow d =
     (let past = date_le (fixingDate d) (referenceDate e);
          fixedRate = (if past then Some ((rate d - spread d) / gearing d) else None);
          simTime = timeFromReference e (fixingDate d)
      in floatingInfo e info w d (\<not> past) simTime (iborAmount e w flow fixedRate simTime))"

definition rateInfo ::
  "(nat \<Rightarrow> CashFlow \<Rightarrow> real \<Rightarrow> RandomVariable \<Rightarrow> RandomVariable) \<Rightarrow>
   McMultiLegBaseEngine \<Rightarrow> CashflowInfo \<Rightarrow> WrapperInfo \<Rightarrow> CashFlow \<Rightarrow> FlowData \<Rightarrow> CashflowInfo" where
  "rateInfo lgmRate e info w flow d =
     (let simTime = max 0 (timeFromReference e (firstValueDate d))
      in floatingInfo e info w d True simTime (rateAmount lgmRate e w flow d simTime))"

text \<open>
  The coupon types, tried in the order of the source after the wrappers are taken off;
  a flow that is none of them fails.
\<close>

definition couponInfo ::
  "McMultiLegBaseEngine \<Rightarrow> CashflowInfo \<Rightarrow> WrapperInfo \<Rightarrow> CashFlow \<Rightarrow> nat \<Rightarrow> nat \<Rightarrow>
   error + CashflowInfo" where
  "couponInfo e info w flow l k =
     (case flow of
        IborCoupon d \<Rightarrow> Inr (iborInfo e info w flow d)
      | CmsCoupon d \<Rightarrow> Inr (iborInfo e info w flow d)
      | OvernightIndexedCoupon d \<Rightarrow> Inr (rateInfo (lgmCompoundedOnRate e) e info w flow d)
      | CappedFlooredOvernightIndexedCoupon d \<Rightarrow> Inr (rateInfo (lgmCompoundedOnRate e) e info w flow d)
      | AverageONIndexedCoupon d \<Rightarrow> Inr (rateInfo (lgmAveragedOnRate e) e info w flow d)
      | CappedFlooredAverageONIndexedCoupon d \<Rightarrow> Inr (rateInfo (lgmAveragedOnRate e) e info w flow d)
      | AverageBMACoupon d \<Rightarrow> Inr (rateInfo (lgmAveragedBmaRate e) e info w flow d)
      | CappedFlooredAverageBMACoupon d \<Rightarrow> Inr (rateInfo (lgmAveragedBmaRate e) e info w flow d)
      | SubPeriodsCoupon1 d \<Rightarrow> Inr (rateInfo (lgmSubPeriodsRate e) e info w flow d)
      | _ \<Rightarrow> Inl (UnhandledCoupon l k))"

definition createCashflowInfo ::
  "McMultiLegBaseEngine \<Rightarrow> CashFlow \<Rightarrow> Currency \<Rightarrow> real \<Rightarrow> nat \<Rightarrow> nat \<Rightarrow> error + CashflowInfo" where
  "createCashflowInfo e flow payCcy payerSign l k =
     ebind (commonInfo e flow payCcy payerSign l k) (\<lambda>info.
       (case flow of
          FixedRateCoupon d \<Rightarrow> Inr (info\<lparr> amountCalculator := fixedAmount d \<rparr>)
        | SimpleCashFlow d \<Rightarrow> Inr (info\<lparr> amountCalculator := fixedAmount d \<rparr>)
        | FXLinkedCashFlow d \<Rightarrow>
            (let src = ccyIndex e (fxSourceCurrency d); tgt = ccyIndex e (fxTargetCurrency d);
                 future = date_less (referenceDate e) (fxFixingDate d)
             in Inr (info\<lparr> simulationTimes :=
                               (if future then [timeFromReference e (fxFixingDate d)] else []),
                             modelIndices := (if future then [fxModelIndices e src tgt] else []),
                             amountCalculator := fxLinkedAmount e d \<rparr>))
        | _ \<Rightarrow>
            (case unwrapCapFloor (unwrapStripped (unwrapFxLinked e (noWrapper, flow))) of
               (w, flow') \<Rightarrow> couponInfo e info w flow' l k)))"

section \<open>The backward-induction calibration\<close>

text \<open>
  \<^verbatim>\<open>std::set<Real>::insert\<close> and \<^verbatim>\<open>erase\<close> on the increasing list of the elements, and
  a checked write \<^verbatim>\<open>v[i] = x\<close> into a vector.
\<close>

definition set_insert :: "real \<Rightarrow> real list \<Rightarrow> real list" where
  "set_insert x xs = (if x \<in> set xs then xs else insort x xs)"

definition set_insert_all :: "real list \<Rightarrow> real list \<Rightarrow> real list" where
  "set_insert_all xs s = fold set_insert xs s"

definition set_erase :: "real \<Rightarrow> real list \<Rightarrow> real list" where
  "set_erase x xs = removeAll x xs"

definition vec_set :: "'a list \<Rightarrow> nat \<Rightarrow> 'a \<Rightarrow> error + 'a list" where
  "vec_set xs i x = (if i < length xs then Inr (xs[i := x]) else Inl OutOfRange)"

text \<open>\<^verbatim>\<open>timeIndex\<close>: the position of a time in the simulation times, which it must be in.\<close>

definition timeIndex :: "real \<Rightarrow> real list \<Rightarrow> error + nat" where
  "timeIndex t ts =
     (if t \<in> set ts then Inr (index_of ts t) else Inl (SimulationTimeNotFound t))"

subsection \<open>cashflowPathValue\<close>

definition flowStates ::
  "CashflowInfo \<Rightarrow> RandomVariable list list \<Rightarrow> real list \<Rightarrow> RandomVariable list \<Rightarrow>
   error + RandomVariable list list" where
  "flowStates cf pathValues simTimes initVals =
     mapM_err (\<lambda>i.
       ebind (vec_at (modelIndices cf) i) (\<lambda>idx.
       ebind (vec_at (simulationTimes cf) i) (\<lambda>t.
         if t = 0 then mapM_err (\<lambda>j. vec_at initVals j) idx
         else ebind (timeIndex t simTimes) (\<lambda>simTimesIdx.
              ebind (vec_at pathValues simTimesIdx) (\<lambda>row.
                mapM_err (\<lambda>j. vec_at row j) idx)))))
       [0..<length (simulationTimes cf)]"

definition cashflowPathValue ::
  "McMultiLegBaseEngine \<Rightarrow> CashflowInfo \<Rightarrow> RandomVariable list list \<Rightarrow> real list \<Rightarrow>
   error + RandomVariable" where
  "cashflowPathValue e cf pathValues simTimes =
     ebind (vec_at pathValues 0) (\<lambda>row0.
     ebind (vec_at row0 0) (\<lambda>r00.
       (let n = length r00 in
        ebind (timeIndex (payTime cf) simTimes) (\<lambda>simTimesPayIdx.
        ebind (flowStates cf pathValues simTimes (map (rv_const n) (initialValues e))) (\<lambda>states.
        ebind (amountCalculator cf n states) (\<lambda>amt.
        ebind (vec_at pathValues simTimesPayIdx) (\<lambda>row.
        ebind (vec_at row (pIdx e IR 0)) (\<lambda>x.
          (let amount0 = rv_div amt (lgmNumeraire e (payTime cf) x) in
           ebind (if 0 < payCcyIndex cf
                  then ebind (vec_at row (pIdx e FX (payCcyIndex cf - 1)))
                         (\<lambda>fx. Inr (rv_mul amount0 (rv_exp fx)))
                  else Inr amount0) (\<lambda>amount1.
             Inr (rv_mul amount1 (rv_const n (payer cf)))))))))))))"

subsection \<open>The walk over the exercise and valuation times\<close>

datatype CfStatus = CfOpen | CfCached | CfDone

text \<open>
  The variables of the walk. The names of the source that the calculator's fields have
  carry a prime here.
\<close>

record CalibrationState =
  cfStatus :: "CfStatus list"
  pathValueUndDirty :: RandomVariable
  pathValueUndExInto :: RandomVariable
  pathValueOption :: RandomVariable
  amountCache :: "RandomVariable list"
  coeffsUndDirty' :: "real list list"
  coeffsUndExInto' :: "real list list"
  coeffsContinuationValue' :: "real list list"
  coeffsOption' :: "real list list"
  counter' :: nat

definition calibration_init :: "nat \<Rightarrow> nat \<Rightarrow> nat \<Rightarrow> CalibrationState" where
  "calibration_init samples nFlows nTimes =
     \<lparr> cfStatus = replicate nFlows CfOpen,
       pathValueUndDirty = rv_const samples 0,
       pathValueUndExInto = rv_const samples 0,
       pathValueOption = rv_const samples 0,
       amountCache = replicate nFlows [],
       coeffsUndDirty' = replicate nTimes [],
       coeffsUndExInto' = replicate nTimes [],
       coeffsContinuationValue' = replicate nTimes [],
       coeffsOption' = replicate nTimes [],
       counter' = nTimes - 1 \<rparr>"

text \<open>
  One cash flow at the time \<open>t\<close> of the walk: an open flow whose cutoff is after \<open>t\<close> is
  valued, added to both aggregates and done; an open flow past its cutoff and not yet
  paid is valued, added to the dirty value and cached; a cached flow whose cutoff is after
  \<open>t\<close> is added to the exercise-into value and done.
\<close>

definition cashflow_step ::
  "McMultiLegBaseEngine \<Rightarrow> CashflowInfo list \<Rightarrow> RandomVariable list list \<Rightarrow> real list \<Rightarrow> real \<Rightarrow>
   nat \<Rightarrow> CalibrationState \<Rightarrow> error + CalibrationState" where
  "cashflow_step e infos pathValues simTimes t i st =
     ebind (vec_at (cfStatus st) i) (\<lambda>status.
     ebind (vec_at infos i) (\<lambda>cf.
       (case status of
          CfOpen \<Rightarrow>
            if t < exIntoCriterionTime cf
            then ebind (cashflowPathValue e cf pathValues simTimes) (\<lambda>tmp.
                   Inr (st\<lparr> pathValueUndDirty := rv_add (pathValueUndDirty st) tmp,
                            pathValueUndExInto := rv_add (pathValueUndExInto st) tmp,
                            cfStatus := (cfStatus st)[i := CfDone] \<rparr>))
            else if t < payTime cf
            then ebind (cashflowPathValue e cf pathValues simTimes) (\<lambda>tmp.
                 ebind (vec_set (amountCache st) i tmp) (\<lambda>cache.
                   Inr (st\<lparr> pathValueUndDirty := rv_add (pathValueUndDirty st) tmp,
                            amountCache := cache,
                            cfStatus := (cfStatus st)[i := CfCached] \<rparr>)))
            else Inr st
        | CfCached \<Rightarrow>
            if t < exIntoCriterionTime cf
            then ebind (vec_at (amountCache st) i) (\<lambda>a.
                   Inr (st\<lparr> pathValueUndExInto := rv_add (pathValueUndExInto st) a,
                            cfStatus := (cfStatus st)[i := CfDone],
                            amountCache := (amountCache st)[i := []] \<rparr>))
            else Inr st
        | CfDone \<Rightarrow> Inr st)))"

text \<open>The regressors at the time \<open>t\<close>: the simulated state of every factor.\<close>

definition regressor_at ::
  "McMultiLegBaseEngine \<Rightarrow> RandomVariable list list \<Rightarrow> real list \<Rightarrow> real \<Rightarrow>
   error + RandomVariable list" where
  "regressor_at e pathValues simTimes t =
     (if stateProcessSize e = 0 then Inr []
      else ebind (timeIndex t simTimes) (\<lambda>k.
           ebind (vec_at pathValues k) (\<lambda>row.
             mapM_err (\<lambda>i. vec_at row i) [0..<stateProcessSize e])))"

text \<open>
  The exercise decision of the calibration at an exercise time: the exercise value is
  the regression of the exercise-into value, the continuation value the regression of the
  option value on the paths with a positive exercise value; the option value becomes the
  exercise-into value where the exercise value exceeds both the continuation value and
  zero.
\<close>

definition exercise_step ::
  "McMultiLegBaseEngine \<Rightarrow> RandomVariable list \<Rightarrow> CalibrationState \<Rightarrow> error + CalibrationState" where
  "exercise_step e regressor st =
     (let n = calibrationSamples e; c = counter' st in
      ebind (vec_at (coeffsUndExInto' st) c) (\<lambda>cEx.
        (let exerciseValue = conditionalExpectation regressor (basisSystem e) cEx;
             cCont = regressionCoefficients e (pathValueOption st) regressor (basisSystem e)
                       (rv_gt exerciseValue (rv_const n 0))
         in
           ebind (vec_set (coeffsContinuationValue' st) c cCont) (\<lambda>conts.
             (let continuationValue = conditionalExpectation regressor (basisSystem e) cCont;
                  newOption = conditionalResult
                             (filter_and (rv_gt exerciseValue continuationValue)
                                         (rv_gt exerciseValue (rv_const n 0)))
                             (pathValueUndExInto st) (pathValueOption st)
              in
                ebind (vec_set (coeffsOption' st) c
                         (regressionCoefficients e newOption regressor (basisSystem e) [])) (\<lambda>opts.
                  Inr (st\<lparr> coeffsContinuationValue' := conts,
                           pathValueOption := newOption,
                           coeffsOption' := opts \<rparr>)))))))"

definition calibration_step ::
  "McMultiLegBaseEngine \<Rightarrow> CashflowInfo list \<Rightarrow> RandomVariable list list \<Rightarrow> real list \<Rightarrow>
   real list \<Rightarrow> real list \<Rightarrow> real \<Rightarrow> CalibrationState \<Rightarrow> error + CalibrationState" where
  "calibration_step e infos pathValues simTimes exTimes xvTimes t st =
     ebind (foldM_err (cashflow_step e infos pathValues simTimes t) [0..<length infos] st) (\<lambda>st1.
     ebind (regressor_at e pathValues simTimes t) (\<lambda>regressor.
     ebind (if exercise e \<noteq> None
            then ebind (vec_set (coeffsUndExInto' st1) (counter' st1)
                          (regressionCoefficients e (pathValueUndExInto st1) regressor
                             (basisSystem e) []))
                   (\<lambda>cs. Inr (st1\<lparr> coeffsUndExInto' := cs \<rparr>))
            else Inr st1) (\<lambda>st2.
     ebind (if t \<in> set exTimes then exercise_step e regressor st2 else Inr st2) (\<lambda>st3.
     ebind (if t \<in> set xvTimes
            then ebind (vec_set (coeffsUndDirty' st3) (counter' st3)
                          (regressionCoefficients e (pathValueUndDirty st3) regressor
                             (basisSystem e) []))
                   (\<lambda>cs. Inr (st3\<lparr> coeffsUndDirty' := cs \<rparr>))
            else Inr st3) (\<lambda>st4.
     ebind (if exercise e \<noteq> None
            then ebind (vec_set (coeffsOption' st4) (counter' st4)
                          (regressionCoefficients e (pathValueOption st4) regressor
                             (basisSystem e) []))
                   (\<lambda>cs. Inr (st4\<lparr> coeffsOption' := cs \<rparr>))
            else Inr st4) (\<lambda>st5.
       Inr (st5\<lparr> counter' := counter' st5 - 1 \<rparr>)))))))"

definition calibration_walk ::
  "McMultiLegBaseEngine \<Rightarrow> CashflowInfo list \<Rightarrow> RandomVariable list list \<Rightarrow> real list \<Rightarrow>
   real list \<Rightarrow> real list \<Rightarrow> real list \<Rightarrow> CalibrationState \<Rightarrow> error + CalibrationState" where
  "calibration_walk e infos pathValues simTimes exTimes xvTimes ts st =
     foldM_err (calibration_step e infos pathValues simTimes exTimes xvTimes) ts st"

text \<open>After the walk the flows that are still open are added to the dirty value.\<close>

definition remaining_step ::
  "McMultiLegBaseEngine \<Rightarrow> CashflowInfo list \<Rightarrow> RandomVariable list list \<Rightarrow> real list \<Rightarrow>
   nat \<Rightarrow> CalibrationState \<Rightarrow> error + CalibrationState" where
  "remaining_step e infos pathValues simTimes i st =
     ebind (vec_at (cfStatus st) i) (\<lambda>status.
       if status = CfOpen
       then ebind (vec_at infos i) (\<lambda>cf.
            ebind (cashflowPathValue e cf pathValues simTimes) (\<lambda>v.
              Inr (st\<lparr> pathValueUndDirty := rv_add (pathValueUndDirty st) v \<rparr>)))
       else Inr st)"

subsection \<open>calculate\<close>

text \<open>
  The descriptors of the flows that are not paid yet, leg by leg; the first flow
  \<^verbatim>\<open>createCashflowInfo\<close> fails on ends the classification with its error.
\<close>

fun classify_leg ::
  "McMultiLegBaseEngine \<Rightarrow> Currency \<Rightarrow> real \<Rightarrow> nat \<Rightarrow> CashFlow list \<Rightarrow> nat \<Rightarrow>
   CashflowInfo list \<Rightarrow> error + CashflowInfo list" where
  "classify_leg e ccy payerSign l [] cashflowNo acc = Inr acc"
| "classify_leg e ccy payerSign l (flow # flows) cashflowNo acc =
     (if date_le (date (flowData flow)) (referenceDate e)
      then classify_leg e ccy payerSign l flows cashflowNo acc
      else (case createCashflowInfo e flow ccy payerSign l cashflowNo of
              Inl err \<Rightarrow> Inl err
            | Inr info \<Rightarrow> classify_leg e ccy payerSign l flows (cashflowNo + 1) (acc @ [info])))"

fun classify_legs ::
  "McMultiLegBaseEngine \<Rightarrow> CashFlow list list \<Rightarrow> nat \<Rightarrow> CashflowInfo list \<Rightarrow>
   error + CashflowInfo list" where
  "classify_legs e [] l acc = Inr acc"
| "classify_legs e (flows # legs) l acc =
     (case vec_at (currency e) l of
        Inl err \<Rightarrow> Inl err
      | Inr ccy \<Rightarrow>
          (case vec_at (payer' e) l of
             Inl err \<Rightarrow> Inl err
           | Inr payerSign \<Rightarrow>
               (case classify_leg e ccy payerSign l flows 0 acc of
                  Inl err \<Rightarrow> Inl err
                | Inr acc' \<Rightarrow> classify_legs e legs (l + 1) acc')))"

definition exercise_times :: "McMultiLegBaseEngine \<Rightarrow> real list" where
  "exercise_times e =
     (case exercise e of
        None \<Rightarrow> []
      | Some dates \<Rightarrow>
          set_insert_all
            (map (timeFromReference e) (filter (\<lambda>d. \<not> date_le d (referenceDate e)) dates)) [])"

definition xva_times :: "McMultiLegBaseEngine \<Rightarrow> real list" where
  "xva_times e = set_insert_all (map (timeFromReference e) (simulationDates e)) []"

definition cashflow_gen_times :: "CashflowInfo list \<Rightarrow> real list" where
  "cashflow_gen_times infos =
     set_erase 0
       (fold (\<lambda>info s. set_insert (payTime info) (set_insert_all (simulationTimes info) s)) infos [])"

text \<open>
  The simulated states, by simulation time and factor: entry \<open>i\<close> of a vector is the
  \<open>i\<close>-th path the generator draws. The time grid starts with time zero, so the \<open>j\<close>-th
  simulation time is at its position \<open>j + 1\<close>.
\<close>

definition simulate_paths :: "McMultiLegBaseEngine \<Rightarrow> real list \<Rightarrow> RandomVariable list list" where
  "simulate_paths e simTimes =
     map (\<lambda>j. map (\<lambda>k. map (\<lambda>i. pathGenerator e simTimes i k (j + 1)) [0..<calibrationSamples e])
                  [0..<stateProcessSize e])
         [0..<length simTimes]"

record EngineResults =
  resultUnderlyingNpv :: real
  resultValue' :: real
  amcCalculator :: MultiLegBaseAmcCalculator

definition calibrate ::
  "McMultiLegBaseEngine \<Rightarrow> CashflowInfo list \<Rightarrow> real list \<Rightarrow> real list \<Rightarrow> real list \<Rightarrow> real list \<Rightarrow>
   RandomVariable list list \<Rightarrow> error + EngineResults" where
  "calibrate e infos exTimes xvTimes exerciseXvTimes simTimes pathValues =
     ebind (calibration_walk e infos pathValues simTimes exTimes xvTimes (rev exerciseXvTimes)
              (calibration_init (calibrationSamples e) (length infos) (length exerciseXvTimes)))
       (\<lambda>st.
     ebind (foldM_err (remaining_step e infos pathValues simTimes) [0..<length infos] st) (\<lambda>st'.
     ebind (vec_at (expectation (pathValueUndDirty st')) 0) (\<lambda>und.
       (let underlyingNpv = und * modelNumeraire e in
        ebind (if exercise e = None then Inr underlyingNpv
               else ebind (vec_at (expectation (pathValueOption st')) 0)
                      (\<lambda>opt. Inr (opt * modelNumeraire e))) (\<lambda>v.
          Inr \<lparr> resultUnderlyingNpv = underlyingNpv,
                resultValue' = v,
                amcCalculator =
                  \<lparr> externalModelIndices = externalModelIndices' e,
                    settlement = optionSettlement e,
                    exerciseXvaTimes = exerciseXvTimes,
                    exerciseTimes = exTimes,
                    xvaTimes = xvTimes,
                    coeffsUndDirty = coeffsUndDirty' st',
                    coeffsUndExInto = coeffsUndExInto' st',
                    coeffsContinuationValue = coeffsContinuationValue' st',
                    coeffsOption = coeffsOption' st',
                    basisFns = basisSystem e,
                    resultValue = v,
                    initialState = initialValues e,
                    exercised = [] \<rparr> \<rparr>)))))"

text \<open>
  \<^verbatim>\<open>calculate\<close> returns its results, or the error it stops with, and the number of
  paths it has drawn from the path generator by then.
\<close>

definition calculate :: "McMultiLegBaseEngine \<Rightarrow> (error + EngineResults) \<times> nat" where
  "calculate e =
     (if length (currency e) \<noteq> length (leg e)
      then (Inl (LegsCurrenciesMismatch (length (leg e)) (length (currency e))), 0)
      else if length (payer' e) \<noteq> length (leg e)
      then (Inl (LegsPayerMismatch (length (leg e)) (length (payer' e))), 0)
      else
        (case classify_legs e (leg e) 0 [] of
           Inl err \<Rightarrow> (Inl err, 0)
         | Inr cashflowInfo \<Rightarrow>
             (let exTimes = exercise_times e;
                  xvTimes = xva_times e;
                  cashflowGenTimes = cashflow_gen_times cashflowInfo;
                  exerciseXvTimes = set_insert_all xvTimes (set_insert_all exTimes []);
                  simTimes = set_insert_all xvTimes
                               (set_insert_all exTimes (set_insert_all cashflowGenTimes []))
              in if simTimes = [] then (Inl NoSimulationTimes, 0)
                 else (calibrate e cashflowInfo exTimes xvTimes exerciseXvTimes simTimes
                         (simulate_paths e simTimes),
                       calibrationSamples e))))"

section \<open>Path-wise reading of the replay\<close>

text \<open>
  The statements about \<open>simulatePath\<close> are made entry by entry and path by path. The
  definitions below are not translated from the source: they name what the statements
  talk about.

  \<open>nonneg_tail\<close>: every entry of a result after the first (the reference date's)
  holds no negative value.
\<close>

definition nonneg_tail :: "RandomVariable list \<Rightarrow> bool" where
  "nonneg_tail res = (\<forall>k. 1 \<le> k \<and> k < length res \<longrightarrow> (\<forall>x \<in> set (res ! k). 0 \<le> x))"

text \<open>
  Position \<open>i\<close> counts the exercise and valuation times in increasing order.
  \<open>exercise_index c i\<close> and \<open>xva_index c i\<close> are the numbers of exercise times and of
  valuation times among the first \<open>i\<close> of them. When the loop is at position \<open>i\<close>, its
  \<^verbatim>\<open>exerciseCounter\<close> is \<open>exercise_index c (Suc i)\<close> after the update and its
  \<^verbatim>\<open>xvaCounter\<close> is \<open>xva_index c i\<close>.
\<close>

definition exercise_index :: "MultiLegBaseAmcCalculator \<Rightarrow> nat \<Rightarrow> nat" where
  "exercise_index c i =
     length (filter (\<lambda>t. t \<in> set (exerciseTimes c)) (take i (exerciseXvaTimes c)))"

definition xva_index :: "MultiLegBaseAmcCalculator \<Rightarrow> nat \<Rightarrow> nat" where
  "xva_index c i =
     length (filter (\<lambda>t. t \<in> set (xvaTimes c)) (take i (exerciseXvaTimes c)))"

text \<open>
  \<open>exercised_upto ex n p\<close>: on path \<open>p\<close> one of the indicators of the first \<open>n\<close>
  exercise times is set. \<open>accounted_before c ex i p\<close>: at a valuation time before
  position \<open>i\<close> path \<open>p\<close> was exercised already.
\<close>

definition exercised_upto :: "Filter list \<Rightarrow> nat \<Rightarrow> nat \<Rightarrow> bool" where
  "exercised_upto ex n p = (\<exists>k \<in> {1..n}. ex ! k ! p)"

definition accounted_before :: "MultiLegBaseAmcCalculator \<Rightarrow> Filter list \<Rightarrow> nat \<Rightarrow> nat \<Rightarrow> bool" where
  "accounted_before c ex i p =
     (\<exists>i' \<in> {0..<i}. exerciseXvaTimes c ! i' \<in> set (xvaTimes c) \<and>
                      exercised_upto ex (exercise_index c (Suc i')) p)"

text \<open>
  The value of the result at the valuation time of position \<open>i\<close> on path \<open>p\<close>, as
  the proofs below establish it.
\<close>

definition replay_value ::
  "MultiLegBaseAmcCalculator \<Rightarrow> Filter list \<Rightarrow> RandomVariable list list \<Rightarrow> nat \<Rightarrow> nat \<Rightarrow> real" where
  "replay_value c ex effPaths i p =
     (let j = xva_index c i; n = exercise_index c (Suc i) in
      max 0
        (if exercised_upto ex n p
         then (if settlement c = Cash \<and> accounted_before c ex i p then 0
               else if ex ! n ! p
                    then conditionalExpectation (effPaths ! j) (basisFns c) (coeffsUndExInto c ! i) ! p
                    else conditionalExpectation (effPaths ! j) (basisFns c) (coeffsUndDirty c ! i) ! p)
         else conditionalExpectation (effPaths ! j) (basisFns c) (coeffsOption c ! i) ! p))"

text \<open>
  The exercised value of the source (\<^verbatim>\<open>exercisedValue\<close> before the cash filter) on
  path \<open>p\<close>: the exercise-into regression where the indicator of the latest exercise
  time is set, the dirty-value regression elsewhere.
\<close>

definition exercised_value ::
  "MultiLegBaseAmcCalculator \<Rightarrow> Filter list \<Rightarrow> RandomVariable list list \<Rightarrow> nat \<Rightarrow> nat \<Rightarrow> real" where
  "exercised_value c ex effPaths i p =
     (if ex ! exercise_index c (Suc i) ! p
      then conditionalExpectation (effPaths ! xva_index c i) (basisFns c) (coeffsUndExInto c ! i) ! p
      else conditionalExpectation (effPaths ! xva_index c i) (basisFns c) (coeffsUndDirty c ! i) ! p)"

section \<open>Example calculators\<close>

text \<open>
  Two basis functions, the constant one and the first state, so that the coefficients
  \<open>[a, b]\<close> give the value \<open>a + b * x\<close> at state \<open>x\<close>. The Bermudan example has two
  exercise times that are valuation times too; its exercise-into value is the state, its
  continuation value is 1, its option value 4 and its dirty value 5. The late-exercise
  example has an exercise time after the last valuation time; the swap example has no
  exercise time and a dirty value of -5.
\<close>

definition constant_basis :: BasisFn where
  "constant_basis s = rv_const (case s of [] \<Rightarrow> 0 | r # _ \<Rightarrow> length r) 1"

definition state_basis :: BasisFn where
  "state_basis s = (case s of [] \<Rightarrow> [] | r # _ \<Rightarrow> r)"

definition bermudan_calc :: MultiLegBaseAmcCalculator where
  "bermudan_calc =
     \<lparr> externalModelIndices = [0], settlement = Physical,
       exerciseXvaTimes = [1, 2], exerciseTimes = [1, 2], xvaTimes = [1, 2],
       coeffsUndDirty = [[5, 0], [5, 0]], coeffsUndExInto = [[0, 1], [0, 1]],
       coeffsContinuationValue = [[1, 0], [1, 0]], coeffsOption = [[4, 0], [4, 0]],
       basisFns = [constant_basis, state_basis], resultValue = 7, initialState = [0],
       exercised = [] \<rparr>"

definition late_exercise_calc :: MultiLegBaseAmcCalculator where
  "late_exercise_calc =
     bermudan_calc \<lparr> exerciseXvaTimes := [1, 2, 3], exerciseTimes := [1, 3],
       coeffsUndDirty := [[5, 0], [5, 0], [5, 0]], coeffsUndExInto := [[0, 1], [0, 1], [0, 1]],
       coeffsContinuationValue := [[1, 0], [1, 0], [1, 0]],
       coeffsOption := [[4, 0], [4, 0], [4, 0]] \<rparr>"

definition swap_calc :: MultiLegBaseAmcCalculator where
  "swap_calc =
     bermudan_calc \<lparr> exerciseTimes := [], coeffsUndDirty := [[- 5, 0], [- 5, 0]] \<rparr>"

text \<open>
  The Bermudan example with two external model indices; an example with three exercise
  times that are valuation times too; and a cash-settled example whose two exercise times
  lie before its two valuation times.
\<close>

definition two_factor_calc :: MultiLegBaseAmcCalculator where
  "two_factor_calc = bermudan_calc \<lparr> externalModelIndices := [0, 1], initialState := [0, 0] \<rparr>"

definition three_exercise_calc :: MultiLegBaseAmcCalculator where
  "three_exercise_calc =
     bermudan_calc \<lparr> exerciseXvaTimes := [1, 2, 3], exerciseTimes := [1, 2, 3],
       xvaTimes := [1, 2, 3],
       coeffsUndDirty := [[5, 0], [5, 0], [5, 0]], coeffsUndExInto := [[0, 1], [0, 1], [0, 1]],
       coeffsContinuationValue := [[1, 0], [1, 0], [1, 0]],
       coeffsOption := [[4, 0], [4, 0], [4, 0]] \<rparr>"

definition cash_gap_calc :: MultiLegBaseAmcCalculator where
  "cash_gap_calc =
     bermudan_calc \<lparr> settlement := Cash,
       exerciseXvaTimes := [1, 3 / 2, 2, 3], exerciseTimes := [1, 3 / 2], xvaTimes := [2, 3],
       coeffsUndDirty := [[5, 0], [5, 0], [5, 0], [5, 0]],
       coeffsUndExInto := [[0, 1], [0, 1], [0, 1], [0, 1]],
       coeffsContinuationValue := [[1, 0], [1, 0], [1, 0], [1, 0]],
       coeffsOption := [[4, 0], [4, 0], [4, 0], [4, 0]] \<rparr>"

section \<open>Reading the calibration and the classification\<close>

text \<open>
  The definitions below are not translated from the source: they name what the statements
  about the engine talk about.

  \<open>exercise_rule\<close>: the step of the walk from \<open>st\<close> to \<open>st'\<close> at an exercise time has, on
  path \<open>p\<close>, set the option value to the exercise-into value where the regressed exercise
  value exceeds the regressed continuation value and zero, and has left it unchanged
  elsewhere. Both regressions are evaluated at the regressors of this time with the
  coefficients the step has stored.
\<close>

definition exercise_rule ::
  "McMultiLegBaseEngine \<Rightarrow> RandomVariable list \<Rightarrow> CalibrationState \<Rightarrow> CalibrationState \<Rightarrow> nat \<Rightarrow> bool" where
  "exercise_rule e regressor st st' p =
     (let exerciseValue =
            conditionalExpectation regressor (basisSystem e) (coeffsUndExInto' st' ! counter' st);
          continuationValue =
            conditionalExpectation regressor (basisSystem e) (coeffsContinuationValue' st' ! counter' st)
      in pathValueOption st' ! p =
           (if continuationValue ! p < exerciseValue ! p \<and> 0 < exerciseValue ! p
            then pathValueUndExInto st' ! p
            else pathValueOption st ! p))"

text \<open>
  The supported shapes of a cash flow: the fixed-amount flows and the FX-linked fixed flow
  as they are; otherwise a coupon of one of the terminal kinds, under at most one
  FX-linked-notional wrapper, then at most one stripped wrapper, then at most one
  capped-floored wrapper.
\<close>

fun terminalCoupon :: "CashFlow \<Rightarrow> bool" where
  "terminalCoupon (IborCoupon d) = True"
| "terminalCoupon (CmsCoupon d) = True"
| "terminalCoupon (OvernightIndexedCoupon d) = True"
| "terminalCoupon (CappedFlooredOvernightIndexedCoupon d) = True"
| "terminalCoupon (AverageONIndexedCoupon d) = True"
| "terminalCoupon (CappedFlooredAverageONIndexedCoupon d) = True"
| "terminalCoupon (AverageBMACoupon d) = True"
| "terminalCoupon (CappedFlooredAverageBMACoupon d) = True"
| "terminalCoupon (SubPeriodsCoupon1 d) = True"
| "terminalCoupon f = False"

fun stripFxLinked :: "CashFlow \<Rightarrow> CashFlow" where
  "stripFxLinked (FloatingRateFXLinkedNotionalCoupon d u) = u"
| "stripFxLinked f = f"

fun stripStripped :: "CashFlow \<Rightarrow> CashFlow" where
  "stripStripped (StrippedCappedFlooredCoupon d u) = u"
| "stripStripped f = f"

fun stripCapFloor :: "CashFlow \<Rightarrow> CashFlow" where
  "stripCapFloor (CappedFlooredCoupon d u) = u"
| "stripCapFloor f = f"

fun recognised :: "CashFlow \<Rightarrow> bool" where
  "recognised (FixedRateCoupon d) = True"
| "recognised (SimpleCashFlow d) = True"
| "recognised (FXLinkedCashFlow d) = True"
| "recognised f = terminalCoupon (stripCapFloor (stripStripped (stripFxLinked f)))"

text \<open>
  A flow is alive when it is not paid by the reference date. The date check of a coupon
  (accrual start before pay date) comes first in \<^verbatim>\<open>createCashflowInfo\<close>;
  \<open>classification_error\<close> is the error a flow of no supported shape ends with, and
  \<open>classifies\<close> says that a flow passes both the date check and the shapes.
\<close>

definition alive :: "McMultiLegBaseEngine \<Rightarrow> CashFlow \<Rightarrow> bool" where
  "alive e flow = (\<not> date_le (date (flowData flow)) (referenceDate e))"

definition accrualCheck :: "CashFlow \<Rightarrow> bool" where
  "accrualCheck flow =
     (if isCoupon flow then date_less (accrualStartDate (flowData flow)) (date (flowData flow))
      else True)"

definition classification_error :: "CashFlow \<Rightarrow> nat \<Rightarrow> nat \<Rightarrow> error" where
  "classification_error flow l k =
     (if accrualCheck flow then UnhandledCoupon l k else AccrualStartNotBeforePayDate l k)"

definition classifies :: "CashFlow \<Rightarrow> bool" where
  "classifies flow = (accrualCheck flow \<and> recognised flow)"

section \<open>Example engines\<close>

text \<open>
  The year fraction of the 30E/360 day counter from a reference date: a day of the month
  after the 30th counts as the 30th, so the 30th and the 31st of a month have the same
  time.
\<close>

definition thirty360 :: "Date \<Rightarrow> Date \<Rightarrow> real" where
  "thirty360 ref d =
     real_of_int (360 * (year d - year ref) + 30 * (month d - month ref)
                  + (min (day d) 30 - min (day ref) 30)) / 360"

definition blankFlow :: FlowData where
  "blankFlow =
     \<lparr> date = Date 2025 1 1, accrualStartDate = Date 2025 1 1, amount = 0,
       fxFixingDate = Date 2025 1 1, fxSourceCurrency = ''EUR'', fxTargetCurrency = ''EUR'',
       fxIndexFixing = 1, foreignAmount = 0, fixingDate = Date 2025 1 1,
       firstValueDate = Date 2025 1 1, rate = 0, spread = 0, gearing = 1,
       indexCurrency = ''EUR'', nominal = 0, accrualPeriod = 0,
       effectiveCap = None, effectiveFloor = None \<rparr>"

text \<open>
  A regression for the examples: without a filter it puts the mean of the target on the
  state, with a filter it returns zero coefficients.
\<close>

definition meanOnState :: "RandomVariable \<Rightarrow> RandomVariable list \<Rightarrow> BasisFn list \<Rightarrow> Filter \<Rightarrow> real list" where
  "meanOnState r regressor basis f =
     (case f of [] \<Rightarrow> [0, sum_list r / real (length r)] | b # bs \<Rightarrow> [0, 0])"

text \<open>
  One leg with one cash flow of 100 on 1 January 2027, one exercise date and one
  valuation date on 1 January 2026, the reference date 1 January 2025, two calibration
  paths with the states 1 and -1, and one factor with numeraire 1.
\<close>

definition exampleEngine :: McMultiLegBaseEngine where
  "exampleEngine =
     \<lparr> leg = [[SimpleCashFlow (blankFlow\<lparr> date := Date 2027 1 1, amount := 100 \<rparr>)]],
       currency = [''EUR''], payer' = [1], exercise = Some [Date 2026 1 1],
       optionSettlement = Physical, simulationDates = [Date 2026 1 1],
       externalModelIndices' = [0], calibrationSamples = 2,
       referenceDate = Date 2025 1 1, timeFromReference = thirty360 (Date 2025 1 1),
       ccyIndex = (\<lambda>c. 0), pIdx = (\<lambda>a i. i), stateProcessSize = 1, initialValues = [0],
       modelNumeraire = 1,
       pathGenerator = (\<lambda>grid i k j. if i = 0 then 1 else - 1),
       basisSystem = [constant_basis, state_basis],
       regressionCoefficients = meanOnState,
       lgmNumeraire = (\<lambda>t x. rv_const (length x) 1),
       lgmFixing = (\<lambda>c f t x. x), lgmCompoundedOnRate = (\<lambda>c f t x. x),
       lgmAveragedOnRate = (\<lambda>c f t x. x), lgmAveragedBmaRate = (\<lambda>c f t x. x),
       lgmSubPeriodsRate = (\<lambda>c f t x. x) \<rparr>"

text \<open>
  A fixed-rate coupon over one day, from 30 to 31 January 2025, and a coupon of no
  supported class whose accrual starts on its pay date.
\<close>

definition stubCoupon :: CashFlow where
  "stubCoupon =
     FixedRateCoupon (blankFlow\<lparr> date := Date 2025 1 31, accrualStartDate := Date 2025 1 30,
                               amount := 1 \<rparr>)"

definition advanceCoupon :: CashFlow where
  "advanceCoupon =
     OtherCoupon (blankFlow\<lparr> date := Date 2026 1 1, accrualStartDate := Date 2026 1 1 \<rparr>)"

text \<open>
  The example engine without an exercise schedule and what it returns; the descriptor
  of the example's cash flow and the state of the walk after its only step; and a leg
  with a paid flow, a supported flow and a cash flow of no supported class.
\<close>

definition swapEngine :: McMultiLegBaseEngine where
  "swapEngine = exampleEngine\<lparr> exercise := None \<rparr>"

definition swapResults :: EngineResults where
  "swapResults =
     \<lparr> resultUnderlyingNpv = 100, resultValue' = 100,
       amcCalculator =
         \<lparr> externalModelIndices = [0], settlement = Physical,
           exerciseXvaTimes = [1], exerciseTimes = [], xvaTimes = [1],
           coeffsUndDirty = [[0, 100]], coeffsUndExInto = [[]],
           coeffsContinuationValue = [[]], coeffsOption = [[]],
           basisFns = [constant_basis, state_basis], resultValue = 100,
           initialState = [0], exercised = [] \<rparr> \<rparr>"

definition exampleInfo :: CashflowInfo where
  "exampleInfo =
     \<lparr> legNo = 0, cfNo = 0, payTime = 2, payCcyIndex = 0, payer = 1,
       exIntoCriterionTime = 2, simulationTimes = [], modelIndices = [],
       amountCalculator = fixedAmount (blankFlow\<lparr> date := Date 2027 1 1, amount := 100 \<rparr>) \<rparr>"

definition exampleWalked :: CalibrationState where
  "exampleWalked =
     \<lparr> cfStatus = [CfDone],
       pathValueUndDirty = [100, 100],
       pathValueUndExInto = [100, 100],
       pathValueOption = [100, 0],
       amountCache = [[]],
       coeffsUndDirty' = [[0, 100]],
       coeffsUndExInto' = [[0, 100]],
       coeffsContinuationValue' = [[0, 0]],
       coeffsOption' = [[0, 50]],
       counter' = 0 \<rparr>"

definition unsupportedFlow :: CashFlow where
  "unsupportedFlow = OtherCashFlow (blankFlow\<lparr> date := Date 2027 6 1 \<rparr>)"

definition unsupportedEngine :: McMultiLegBaseEngine where
  "unsupportedEngine =
     exampleEngine\<lparr> leg := [[SimpleCashFlow (blankFlow\<lparr> date := Date 2024 1 1, amount := 100 \<rparr>),
                             SimpleCashFlow (blankFlow\<lparr> date := Date 2027 1 1, amount := 100 \<rparr>),
                             unsupportedFlow]] \<rparr>"

section \<open>Proofs about the forward replay\<close>

lemma ebind_Inl [simp]: "ebind (Inl e) f = Inl e"
  by (simp add: ebind_def)

lemma ebind_Inr [simp]: "ebind (Inr x) f = f x"
  by (simp add: ebind_def)

lemma ebind_eq_Inr: "(ebind m f = Inr y) = (\<exists>x. m = Inr x \<and> f x = Inr y)"
  by (cases m) simp_all

lemma vec_at_eq_Inr: "(vec_at xs i = Inr x) = (i < length xs \<and> x = xs ! i)"
  by (auto simp: vec_at_def)

lemma foldM_err_append:
  "foldM_err f (xs @ ys) s = ebind (foldM_err f xs s) (foldM_err f ys)"
  by (induction xs arbitrary: s) (auto split: sum.splits)

lemma rv_max_zero_nonneg: "x \<in> set (rv_max (rv_const n 0) y) \<Longrightarrow> 0 \<le> x"
  by (auto simp: rv_max_def rv_const_def set_zip)

lemma exercise_advance_result:
  "exercise_advance c ex t st = Inr st' \<Longrightarrow> result st' = result st"
  by (auto simp: exercise_advance_def ebind_eq_Inr split: if_splits)

lemma xva_update_nonneg:
  assumes "xva_update c samples effPaths ex t st = Inr st'" and "nonneg_tail (result st)"
  shows "nonneg_tail (result st')"
proof (cases "t \<in> set (xvaTimes c)")
  case False
  with assms show ?thesis by (simp add: xva_update_def)
next
  case True
  with assms(1) obtain v where
    r: "result st' = (result st)[xvaCounter st + 1 := rv_max (rv_const samples 0) v]"
    by (auto simp: xva_update_def ebind_eq_Inr Let_def split: if_splits)
  show ?thesis
    unfolding nonneg_tail_def r
  proof (intro allI impI ballI)
    fix k x
    assume k: "1 \<le> k \<and> k < length ((result st)[xvaCounter st + 1 := rv_max (rv_const samples 0) v])"
      and x: "x \<in> set ((result st)[xvaCounter st + 1 := rv_max (rv_const samples 0) v] ! k)"
    show "0 \<le> x"
    proof (cases "k = xvaCounter st + 1")
      case True
      with k x have "x \<in> set (rv_max (rv_const samples 0) v)" by simp
      then show ?thesis by (rule rv_max_zero_nonneg)
    next
      case False
      with k x assms(2) show ?thesis by (auto simp: nonneg_tail_def)
    qed
  qed
qed

lemma populate_step_nonneg:
  "populate_step c samples effPaths ex t st = Inr st' \<Longrightarrow> nonneg_tail (result st) \<Longrightarrow>
   nonneg_tail (result st')"
  by (auto simp: populate_step_def ebind_eq_Inr dest!: exercise_advance_result dest: xva_update_nonneg)

lemma populate_nonneg:
  "populate c samples effPaths ex ts st = Inr st' \<Longrightarrow> nonneg_tail (result st) \<Longrightarrow>
   nonneg_tail (result st')"
  unfolding populate_def
proof (induction ts arbitrary: st)
  case Nil
  then show ?case by simp
next
  case (Cons t ts)
  then show ?case by (auto split: sum.splits dest: populate_step_nonneg)
qed

lemma result0_nonneg: "nonneg_tail (initial_result c samples n)"
  by (auto simp: nonneg_tail_def initial_result_def rv_const_def nth_list_update)

lemma simulatePath_exercise_run:
  assumes "simulatePath c pathTimes paths isRelevantTime stickyCloseOutRun = Inr (res, c')"
    and "exerciseTimes c \<noteq> []"
  shows "\<exists>simTimes effPaths n samples isp ex st.
           collect_paths c pathTimes paths isRelevantTime stickyCloseOutRun = Inr (simTimes, effPaths, n)
         \<and> length simTimes = length (xvaTimes c)
         \<and> front_size paths = Inr samples
         \<and> initial_state_rvs c samples = Inr isp
         \<and> exercise_indicators c samples effPaths isp stickyCloseOutRun = Inr ex
         \<and> populate c samples effPaths ex (exerciseXvaTimes c)
              (populate_init samples (initial_result c samples (length simTimes))) = Inr st
         \<and> res = result st \<and> c' = c\<lparr> exercised := ex \<rparr>"
  using assms
  by (auto simp: simulatePath_def ebind_eq_Inr split: if_splits prod.splits)

text \<open>
  Claim C5, as amended: for a calculator with an exercise schedule, every value of the
  result of \<open>simulatePath\<close> at every valuation time (every entry after the first) and on
  every path is greater than or equal to zero. Without an exercise schedule the source
  returns the dirty-value regression as it is, which can be negative.
\<close>

theorem simulatePath_floor:
  assumes "simulatePath c pathTimes paths isRelevantTime stickyCloseOutRun = Inr (res, c')"
    and "exerciseTimes c \<noteq> []"
    and "1 \<le> k" and "k < length res" and "x \<in> set (res ! k)"
  shows "0 \<le> x"
proof -
  from simulatePath_exercise_run [OF assms(1,2)] obtain samples effPaths ex n st where
    "populate c samples effPaths ex (exerciseXvaTimes c)
       (populate_init samples (initial_result c samples n)) = Inr st"
    and "res = result st"
    by blast
  then have "nonneg_tail res"
    using populate_nonneg [of c samples effPaths ex "exerciseXvaTimes c" _ st]
    by (simp add: populate_init_def result0_nonneg)
  with assms(3-5) show ?thesis by (auto simp: nonneg_tail_def)
qed

lemma collect_step_exercised [simp]:
  "collect_step (c\<lparr>exercised := e\<rparr>) = collect_step c"
  by (intro ext) (simp add: collect_step_def Let_def cong: if_cong prod.case_cong)

lemma collect_paths_exercised [simp]:
  "collect_paths (c\<lparr>exercised := e\<rparr>) = collect_paths c"
  by (intro ext) (simp add: collect_paths_def)

lemma initial_state_rvs_exercised [simp]:
  "initial_state_rvs (c\<lparr>exercised := e\<rparr>) = initial_state_rvs c"
  by (intro ext) (simp add: initial_state_rvs_def)

lemma initial_result_exercised [simp]:
  "initial_result (c\<lparr>exercised := e\<rparr>) = initial_result c"
  by (intro ext) (simp add: initial_result_def)

lemma dirty_step_exercised [simp]:
  "dirty_step (c\<lparr>exercised := e\<rparr>) = dirty_step c"
  by (intro ext) (simp add: dirty_step_def Let_def cong: if_cong prod.case_cong)

lemma indicator_step_exercised [simp]:
  "indicator_step (c\<lparr>exercised := e\<rparr>) = indicator_step c"
  by (intro ext) (simp add: indicator_step_def Let_def cong: if_cong prod.case_cong)

lemma indicator_loop_exercised [simp]:
  "indicator_loop (c\<lparr>exercised := e\<rparr>) samples effPaths isp ts n ex
     = indicator_loop c samples effPaths isp ts n ex"
  by (induction ts arbitrary: n ex) (auto split: sum.splits option.splits)

lemma populate_step_exercised [simp]:
  "populate_step (c\<lparr>exercised := e\<rparr>) = populate_step c"
  by (intro ext)
     (simp add: populate_step_def exercise_advance_def xva_update_def
        exercisedValue_at_def Let_def cong: if_cong)

lemma populate_exercised [simp]:
  "populate (c\<lparr>exercised := e\<rparr>) = populate c"
  by (intro ext) (simp add: populate_def)

lemma exercise_indicators_fresh [simp]:
  "exercise_indicators (c\<lparr>exercised := e\<rparr>) samples effPaths isp False
     = exercise_indicators c samples effPaths isp False"
  by (simp add: exercise_indicators_def)

lemma simulatePath_fresh_outcome:
  "map_sum id fst (simulatePath (c\<lparr>exercised := e\<rparr>) pathTimes paths isRelevantTime False)
     = map_sum id fst (simulatePath c pathTimes paths isRelevantTime False)"
  by (simp add: simulatePath_def ebind_def split: sum.splits prod.splits)

lemma simulatePath_final_calculator:
  assumes "simulatePath c pathTimes paths isRelevantTime stickyCloseOutRun = Inr (res, c')"
  shows "\<exists>e. c' = c\<lparr>exercised := e\<rparr>"
proof (cases "exerciseTimes c = []")
  case True
  with assms have "c' = c"
    by (auto simp: simulatePath_def ebind_eq_Inr split: if_splits prod.splits)
  then have "c' = c\<lparr>exercised := exercised c\<rparr>" by simp
  then show ?thesis ..
next
  case False
  from simulatePath_exercise_run [OF assms False] show ?thesis by blast
qed

text \<open>
  A call of \<open>simulatePath\<close> that is not a sticky close-out run and ends with a result
  leaves the calculator in a state from which the same call, with the same path times,
  paths and mask, returns the same result vectors (and leaves the same state): the only
  state a call changes is the exercise indicators, and a run that is not sticky does not
  read them. A run that reads a dangling pointer does not end with a result.
\<close>

lemma simulatePath_replay_twice:
  assumes "simulatePath c pathTimes paths isRelevantTime False = Inr (res, c')"
  shows "simulatePath c' pathTimes paths isRelevantTime False = Inr (res, c')"
proof -
  from simulatePath_final_calculator [OF assms] obtain e where c': "c' = c\<lparr>exercised := e\<rparr>" ..
  show ?thesis
  proof (cases "exerciseTimes c = []")
    case True
    with assms have "c' = c"
      by (auto simp: simulatePath_def ebind_eq_Inr split: if_splits prod.splits)
    with assms show ?thesis by simp
  next
    case False
    from simulatePath_exercise_run [OF assms False] obtain simTimes effPaths n samples isp ex st where
      r: "collect_paths c pathTimes paths isRelevantTime False = Inr (simTimes, effPaths, n)"
         "length simTimes = length (xvaTimes c)"
         "front_size paths = Inr samples"
         "initial_state_rvs c samples = Inr isp"
         "exercise_indicators c samples effPaths isp False = Inr ex"
         "populate c samples effPaths ex (exerciseXvaTimes c)
              (populate_init samples (initial_result c samples (length simTimes))) = Inr st"
         "res = result st" "c' = c\<lparr> exercised := ex \<rparr>"
      by blast
    from assms have p: "paths \<noteq> []" "length pathTimes = length paths"
      by (auto simp: simulatePath_def split: if_splits)
    show ?thesis
      using r p False by (simp add: simulatePath_def)
  qed
qed

lemma lower_bound_le: "lower_bound xs t \<le> length xs"
  by (induction xs) auto

lemma lower_bound_end: "(lower_bound xs t = length xs) = (\<forall>x \<in> set xs. x < t)"
proof (induction xs)
  case Nil
  then show ?case by simp
next
  case (Cons x xs)
  then show ?case by auto
qed

lemma indicator_step_break:
  "lower_bound (xvaTimes c) t = length (xvaTimes c) \<Longrightarrow>
   indicator_step c samples effPaths isp t n ex \<noteq> Inr (Some ex')"
  by (simp add: indicator_step_def Let_def)

lemma indicator_step_Some:
  assumes "indicator_step c samples effPaths isp t n ex = Inr (Some ex')"
  shows "\<exists>v w. n + 1 < length ex \<and> n < length ex \<and>
           ex' = ex[n + 1 := filter_and (filter_and (filter_not (ex ! n)) v) w]"
  using assms
  by (auto simp: indicator_step_def Let_def ebind_eq_Inr vec_at_eq_Inr split: if_splits prod.splits)

lemma filter_and_not_nth:
  assumes "p < length (filter_and (filter_and (filter_not e) v) w)"
    and "filter_and (filter_and (filter_not e) v) w ! p"
  shows "p < length e \<and> \<not> e ! p"
  using assms by (auto simp: filter_and_def filter_not_def)

lemma indicator_loop_frame:
  "indicator_loop c samples effPaths isp ts n ex = Inr ex' \<Longrightarrow>
   length ex' = length ex \<and> (\<forall>i \<le> n. ex' ! i = ex ! i)"
proof (induction ts arbitrary: n ex)
  case Nil
  then show ?case by simp
next
  case (Cons t ts)
  show ?case
  proof (cases "indicator_step c samples effPaths isp t n ex")
    case (Inl e)
    with Cons.prems show ?thesis by simp
  next
    case (Inr r)
    show ?thesis
    proof (cases r)
      case None
      with Inr Cons.prems show ?thesis by simp
    next
      case (Some ex1)
      with Inr Cons.prems have l: "indicator_loop c samples effPaths isp ts (n + 1) ex1 = Inr ex'"
        by simp
      from Some Inr indicator_step_Some obtain v w where
        e1: "ex1 = ex[n + 1 := filter_and (filter_and (filter_not (ex ! n)) v) w]"
        by blast
      from Cons.IH [OF l] e1 show ?thesis by simp
    qed
  qed
qed

lemma indicator_loop_break:
  "indicator_loop c samples effPaths isp ts n ex = Inr ex' \<Longrightarrow> k < length ts \<Longrightarrow>
   lower_bound (xvaTimes c) (ts ! k) = length (xvaTimes c) \<Longrightarrow>
   (\<forall>i. n + k < i \<longrightarrow> ex' ! i = ex ! i) \<and>
   indicator_loop c samples effPaths isp (take k ts) n ex = Inr ex'"
proof (induction ts arbitrary: n ex k)
  case Nil
  then show ?case by simp
next
  case (Cons t ts)
  show ?case
  proof (cases "indicator_step c samples effPaths isp t n ex")
    case (Inl e)
    with Cons.prems show ?thesis by simp
  next
    case (Inr r)
    show ?thesis
    proof (cases r)
      case None
      with Inr Cons.prems show ?thesis by (cases k) simp_all
    next
      case (Some ex1)
      with Inr Cons.prems have l: "indicator_loop c samples effPaths isp ts (n + 1) ex1 = Inr ex'"
        by simp
      from Some Inr indicator_step_Some obtain v w where
        e1: "ex1 = ex[n + 1 := filter_and (filter_and (filter_not (ex ! n)) v) w]"
        by blast
      show ?thesis
      proof (cases k)
        case 0
        with Cons.prems(3) Inr Some indicator_step_break show ?thesis by fastforce
      next
        case (Suc k')
        with Cons.prems have "k' < length ts"
          "lower_bound (xvaTimes c) (ts ! k') = length (xvaTimes c)" by simp_all
        from Cons.IH [OF l this] Suc e1 Inr Some show ?thesis by simp
      qed
    qed
  qed
qed

lemma indicator_loop_not_both:
  "indicator_loop c samples effPaths isp ts n ex = Inr ex' \<Longrightarrow>
   (\<forall>i. n < i \<and> i < length ex \<longrightarrow> (\<forall>b \<in> set (ex ! i). \<not> b)) \<Longrightarrow>
   n \<le> j \<Longrightarrow> j + 1 < length ex \<Longrightarrow> p < length (ex' ! (j + 1)) \<Longrightarrow> ex' ! (j + 1) ! p \<Longrightarrow>
   p < length (ex' ! j) \<and> \<not> ex' ! j ! p"
proof (induction ts arbitrary: n ex)
  case Nil
  then have "ex' = ex" by simp
  moreover from Nil.prems(3,4) have "n < j + 1 \<and> j + 1 < length ex" by simp
  with Nil.prems(2) have "\<forall>b \<in> set (ex ! (j + 1)). \<not> b" by blast
  ultimately have "\<forall>b \<in> set (ex' ! (j + 1)). \<not> b" by simp
  with Nil.prems(5,6) show ?case using nth_mem by blast
next
  case (Cons t ts)
  show ?case
  proof (cases "indicator_step c samples effPaths isp t n ex")
    case (Inl e)
    with Cons.prems show ?thesis by simp
  next
    case (Inr r)
    show ?thesis
    proof (cases r)
      case None
      with Inr Cons.prems(1) have "ex' = ex" by simp
      moreover from Cons.prems(3,4) have "n < j + 1 \<and> j + 1 < length ex" by simp
      with Cons.prems(2) have "\<forall>b \<in> set (ex ! (j + 1)). \<not> b" by blast
      ultimately have "\<forall>b \<in> set (ex' ! (j + 1)). \<not> b" by simp
      with Cons.prems(5,6) show ?thesis using nth_mem by blast
    next
      case (Some ex1)
      with Inr Cons.prems have l: "indicator_loop c samples effPaths isp ts (n + 1) ex1 = Inr ex'"
        by simp
      from Some Inr indicator_step_Some obtain v w where
        e1: "ex1 = ex[n + 1 := filter_and (filter_and (filter_not (ex ! n)) v) w]"
        and n1: "n + 1 < length ex"
        by blast
      have f: "\<forall>i. n + 1 < i \<and> i < length ex1 \<longrightarrow> (\<forall>b \<in> set (ex1 ! i). \<not> b)"
      proof (intro allI impI)
        fix i
        assume i: "n + 1 < i \<and> i < length ex1"
        with e1 have "n < i \<and> i < length ex" by simp
        with Cons.prems(2) have "\<forall>b \<in> set (ex ! i). \<not> b" by blast
        moreover from i e1 have "ex1 ! i = ex ! i" by simp
        ultimately show "\<forall>b \<in> set (ex1 ! i). \<not> b" by simp
      qed
      from e1 Cons.prems(4) have j1: "j + 1 < length ex1" by simp
      show ?thesis
      proof (cases "j = n")
        case True
        from indicator_loop_frame [OF l] have
          "ex' ! (n + 1) = ex1 ! (n + 1)" "ex' ! n = ex1 ! n" by simp_all
        with e1 n1 have
          a: "ex' ! (n + 1) = filter_and (filter_and (filter_not (ex ! n)) v) w"
          and b: "ex' ! n = ex ! n" by simp_all
        from Cons.prems(5,6) True a b filter_and_not_nth [of p "ex ! n" v w]
        show ?thesis by simp
      next
        case False
        with Cons.prems(3) have "n + 1 \<le> j" by simp
        from Cons.IH [OF l f this j1 Cons.prems(5,6)] show ?thesis .
      qed
    qed
  qed
qed

lemma populate_Nil [simp]: "populate c samples effPaths ex [] st = Inr st"
  by (simp add: populate_def)

lemma populate_snoc:
  "populate c samples effPaths ex (ts @ [t]) st =
     ebind (populate c samples effPaths ex ts st) (populate_step c samples effPaths ex t)"
  by (cases "populate c samples effPaths ex ts st")
     (simp_all add: populate_def foldM_err_append ebind_def split: sum.splits)

lemma populate_append:
  "populate c samples effPaths ex (ts @ us) st =
     ebind (populate c samples effPaths ex ts st) (populate c samples effPaths ex us)"
  by (cases "populate c samples effPaths ex ts st")
     (simp_all add: populate_def foldM_err_append)

lemma populate_Cons:
  "populate c samples effPaths ex (t # ts) st =
     ebind (populate_step c samples effPaths ex t st) (populate c samples effPaths ex ts)"
  by (simp add: populate_def ebind_def split: sum.splits)

lemma exercise_advance_Inr:
  assumes "exercise_advance c ex t st = Inr st1"
  shows "counter st1 = counter st \<and> xvaCounter st1 = xvaCounter st \<and> result st1 = result st \<and>
         cashExerciseValueWasAccountedForOnXvaTime st1 = cashExerciseValueWasAccountedForOnXvaTime st \<and>
         (if t \<in> set (exerciseTimes c)
          then exerciseCounter st1 = exerciseCounter st + 1 \<and>
               exerciseCounter st + 1 < length ex \<and>
               wasExercised st1 = filter_or (wasExercised st) (ex ! (exerciseCounter st + 1))
          else exerciseCounter st1 = exerciseCounter st \<and> wasExercised st1 = wasExercised st)"
  using assms
  by (auto simp: exercise_advance_def ebind_eq_Inr vec_at_eq_Inr split: if_splits)

lemma xva_update_Inr:
  assumes "xva_update c samples effPaths ex t st = Inr st2"
  shows "counter st2 = counter st \<and> exerciseCounter st2 = exerciseCounter st \<and>
         wasExercised st2 = wasExercised st \<and>
         length (result st2) = length (result st) \<and>
         (if t \<in> set (xvaTimes c)
          then xvaCounter st2 = xvaCounter st + 1 \<and>
               xvaCounter st + 1 < length (result st) \<and>
               xvaCounter st < length effPaths \<and> counter st < length (coeffsOption c) \<and>
               exerciseCounter st < length ex \<and> counter st < length (coeffsUndExInto c) \<and>
               counter st < length (coeffsUndDirty c) \<and>
               cashExerciseValueWasAccountedForOnXvaTime st2 =
                 (if settlement c = Cash
                  then filter_or (cashExerciseValueWasAccountedForOnXvaTime st) (wasExercised st)
                  else cashExerciseValueWasAccountedForOnXvaTime st) \<and>
               result st2 = (result st)[xvaCounter st + 1 :=
                 rv_max (rv_const samples 0)
                   (conditionalResult (wasExercised st)
                      (if settlement c = Cash
                       then applyInverseFilter
                              (exercisedValue_at c (ex ! exerciseCounter st) (effPaths ! xvaCounter st)
                                 (coeffsUndExInto c ! counter st) (coeffsUndDirty c ! counter st))
                              (cashExerciseValueWasAccountedForOnXvaTime st)
                       else exercisedValue_at c (ex ! exerciseCounter st) (effPaths ! xvaCounter st)
                              (coeffsUndExInto c ! counter st) (coeffsUndDirty c ! counter st))
                      (conditionalExpectation (effPaths ! xvaCounter st) (basisFns c)
                         (coeffsOption c ! counter st)))]
          else xvaCounter st2 = xvaCounter st \<and> result st2 = result st \<and>
               cashExerciseValueWasAccountedForOnXvaTime st2 = cashExerciseValueWasAccountedForOnXvaTime st)"
  using assms
  by (auto simp: xva_update_def ebind_eq_Inr vec_at_eq_Inr Let_def split: if_splits)

lemma populate_step_Inr:
  assumes "populate_step c samples effPaths ex t st = Inr st'"
  shows "\<exists>st1 st2. exercise_advance c ex t st = Inr st1 \<and>
           xva_update c samples effPaths ex t st1 = Inr st2 \<and>
           st' = st2\<lparr>counter := counter st2 + 1\<rparr>"
  using assms by (auto simp: populate_step_def ebind_eq_Inr)

lemma populate_step_counters:
  assumes "populate_step c samples effPaths ex t st = Inr st'"
  shows "counter st' = counter st + 1 \<and>
         xvaCounter st' = xvaCounter st + (if t \<in> set (xvaTimes c) then 1 else 0) \<and>
         exerciseCounter st' = exerciseCounter st + (if t \<in> set (exerciseTimes c) then 1 else 0) \<and>
         length (result st') = length (result st) \<and>
         (\<forall>k \<le> xvaCounter st. result st' ! k = result st ! k)"
proof -
  from populate_step_Inr [OF assms] obtain st1 st2 where
    a: "exercise_advance c ex t st = Inr st1"
    and b: "xva_update c samples effPaths ex t st1 = Inr st2"
    and c: "st' = st2\<lparr>counter := counter st2 + 1\<rparr>" by blast
  from exercise_advance_Inr [OF a] xva_update_Inr [OF b] c show ?thesis
    by (auto split: if_splits)
qed

lemma populate_counters:
  "populate c samples effPaths ex ts st = Inr st' \<Longrightarrow>
     counter st' = counter st + length ts \<and>
     xvaCounter st' = xvaCounter st + length (filter (\<lambda>t. t \<in> set (xvaTimes c)) ts) \<and>
     exerciseCounter st' = exerciseCounter st + length (filter (\<lambda>t. t \<in> set (exerciseTimes c)) ts) \<and>
     length (result st') = length (result st) \<and>
     (\<forall>k \<le> xvaCounter st. result st' ! k = result st ! k)"
proof (induction ts arbitrary: st)
  case Nil
  then show ?case by simp
next
  case (Cons t ts)
  from Cons.prems obtain st1 where
    s: "populate_step c samples effPaths ex t st = Inr st1"
    and r: "populate c samples effPaths ex ts st1 = Inr st'"
    by (auto simp: populate_Cons ebind_eq_Inr)
  from populate_step_counters [OF s] Cons.IH [OF r] show ?case by auto
qed

lemma rv_max_nth:
  "p < length (rv_max x y) \<Longrightarrow>
   p < length x \<and> p < length y \<and> rv_max x y ! p = max (x ! p) (y ! p)"
  by (simp add: rv_max_def)

lemma conditionalResult_nth:
  "p < length (conditionalResult f x y) \<Longrightarrow>
   p < length f \<and> p < length x \<and> p < length y \<and>
   conditionalResult f x y ! p = (if f ! p then x ! p else y ! p)"
  by (simp add: conditionalResult_def)

lemma applyInverseFilter_nth:
  "p < length (applyInverseFilter x f) \<Longrightarrow>
   p < length x \<and> p < length f \<and> applyInverseFilter x f ! p = (if f ! p then 0 else x ! p)"
  by (simp add: applyInverseFilter_def)

lemma filter_or_nth:
  "p < length (filter_or f g) \<Longrightarrow>
   p < length f \<and> p < length g \<and> filter_or f g ! p = (f ! p \<or> g ! p)"
  by (simp add: filter_or_def)

lemma filter_const_nth: "p < length (filter_const n b) \<Longrightarrow> filter_const n b ! p = b"
  by (simp add: filter_const_def)

lemma rv_const_nth: "p < length (rv_const n x) \<Longrightarrow> rv_const n x ! p = x"
  by (simp add: rv_const_def)

lemma exercised_upto_0 [simp]: "exercised_upto ex 0 p = False"
  by (simp add: exercised_upto_def)

lemma exercised_upto_Suc:
  "exercised_upto ex (Suc n) p = (exercised_upto ex n p \<or> ex ! Suc n ! p)"
  by (auto simp: exercised_upto_def atLeastAtMostSuc_conv)

lemma exercised_upto_mono: "n \<le> m \<Longrightarrow> exercised_upto ex n p \<Longrightarrow> exercised_upto ex m p"
  by (auto simp: exercised_upto_def)

lemma accounted_before_0 [simp]: "accounted_before c ex 0 p = False"
  by (simp add: accounted_before_def)

lemma accounted_before_Suc:
  "accounted_before c ex (Suc i) p =
     (accounted_before c ex i p \<or>
      (exerciseXvaTimes c ! i \<in> set (xvaTimes c) \<and> exercised_upto ex (exercise_index c (Suc i)) p))"
  by (auto simp: accounted_before_def atLeast0_lessThan_Suc)

lemma exercise_index_Suc:
  "i < length (exerciseXvaTimes c) \<Longrightarrow>
   exercise_index c (Suc i) =
     exercise_index c i + (if exerciseXvaTimes c ! i \<in> set (exerciseTimes c) then 1 else 0)"
  by (simp add: exercise_index_def take_Suc_conv_app_nth)

lemma xva_index_Suc:
  "i < length (exerciseXvaTimes c) \<Longrightarrow>
   xva_index c (Suc i) =
     xva_index c i + (if exerciseXvaTimes c ! i \<in> set (xvaTimes c) then 1 else 0)"
  by (simp add: xva_index_def take_Suc_conv_app_nth)

lemma exercise_index_mono: "i \<le> i' \<Longrightarrow> exercise_index c i \<le> exercise_index c i'"
proof (induction i' rule: nat_induct_at_least)
  case base
  show ?case by simp
next
  case (Suc n)
  show ?case
  proof (cases "n < length (exerciseXvaTimes c)")
    case True
    with Suc exercise_index_Suc [of n c] show ?thesis by simp
  next
    case False
    then have "exercise_index c (Suc n) = exercise_index c n"
      by (simp add: exercise_index_def)
    with Suc show ?thesis by simp
  qed
qed

lemma populate_prefix_counters:
  assumes "populate c samples effPaths ex (take i (exerciseXvaTimes c)) (populate_init samples r0) = Inr st"
  shows "counter st = min i (length (exerciseXvaTimes c)) \<and> xvaCounter st = xva_index c i \<and>
         exerciseCounter st = exercise_index c i \<and> length (result st) = length r0"
  using populate_counters [OF assms]
  by (simp add: populate_init_def xva_index_def exercise_index_def min.commute)

lemma populate_flags:
  "i \<le> length (exerciseXvaTimes c) \<Longrightarrow>
   populate c samples effPaths ex (take i (exerciseXvaTimes c)) (populate_init samples r0) = Inr st \<Longrightarrow>
     (p < length (wasExercised st) \<longrightarrow>
        wasExercised st ! p = exercised_upto ex (exercise_index c i) p) \<and>
     (p < length (cashExerciseValueWasAccountedForOnXvaTime st) \<longrightarrow>
        cashExerciseValueWasAccountedForOnXvaTime st ! p =
          (settlement c = Cash \<and> accounted_before c ex i p))"
proof (induction i arbitrary: st)
  case 0
  then show ?case by (auto simp: populate_init_def filter_const_def exercise_index_def)
next
  case (Suc i)
  let ?G = "exerciseXvaTimes c"
  let ?t = "?G ! i"
  from Suc.prems(1) have i: "i < length ?G" by simp
  then have tk: "take (Suc i) ?G = take i ?G @ [?t]" by (simp add: take_Suc_conv_app_nth)
  from Suc.prems(2) obtain st0 where
    p0: "populate c samples effPaths ex (take i ?G) (populate_init samples r0) = Inr st0"
    and s: "populate_step c samples effPaths ex ?t st0 = Inr st"
    unfolding tk by (auto simp: populate_snoc ebind_eq_Inr)
  from i have "i \<le> length ?G" by simp
  from Suc.IH [OF this p0] have
    ihw: "p < length (wasExercised st0) \<longrightarrow>
            wasExercised st0 ! p = exercised_upto ex (exercise_index c i) p"
    and iha: "p < length (cashExerciseValueWasAccountedForOnXvaTime st0) \<longrightarrow>
            cashExerciseValueWasAccountedForOnXvaTime st0 ! p =
              (settlement c = Cash \<and> accounted_before c ex i p)"
    by blast+
  from populate_prefix_counters [OF p0] have ec: "exerciseCounter st0 = exercise_index c i" by simp
  from populate_step_Inr [OF s] obtain st1 st2 where
    a: "exercise_advance c ex ?t st0 = Inr st1"
    and b: "xva_update c samples effPaths ex ?t st1 = Inr st2"
    and c: "st = st2\<lparr>counter := counter st2 + 1\<rparr>" by blast
  note ua = exercise_advance_Inr [OF a]
  note ub = xva_update_Inr [OF b]
  have w1: "p < length (wasExercised st1) \<longrightarrow>
              wasExercised st1 ! p = exercised_upto ex (exercise_index c (Suc i)) p"
  proof (cases "?t \<in> set (exerciseTimes c)")
    case True
    with ua have w: "wasExercised st1 = filter_or (wasExercised st0) (ex ! (exerciseCounter st0 + 1))"
      by simp
    show ?thesis
    proof
      assume "p < length (wasExercised st1)"
      with w filter_or_nth [of p "wasExercised st0" "ex ! (exerciseCounter st0 + 1)"]
      have "p < length (wasExercised st0)"
        and "wasExercised st1 ! p = (wasExercised st0 ! p \<or> ex ! (exerciseCounter st0 + 1) ! p)"
        by simp_all
      with ihw ec True i show "wasExercised st1 ! p = exercised_upto ex (exercise_index c (Suc i)) p"
        by (simp add: exercise_index_Suc exercised_upto_Suc)
    qed
  next
    case False
    with ua have "wasExercised st1 = wasExercised st0" by simp
    with ihw False i show ?thesis by (simp add: exercise_index_Suc)
  qed
  from ub c have ws: "wasExercised st = wasExercised st1" by simp
  have a1: "p < length (cashExerciseValueWasAccountedForOnXvaTime st) \<longrightarrow>
        cashExerciseValueWasAccountedForOnXvaTime st ! p =
          (settlement c = Cash \<and> accounted_before c ex (Suc i) p)"
  proof (cases "?t \<in> set (xvaTimes c) \<and> settlement c = Cash")
    case True
    with ua ub c have acc: "cashExerciseValueWasAccountedForOnXvaTime st =
        filter_or (cashExerciseValueWasAccountedForOnXvaTime st0) (wasExercised st1)"
      by simp
    show ?thesis
    proof
      assume "p < length (cashExerciseValueWasAccountedForOnXvaTime st)"
      with acc filter_or_nth [of p "cashExerciseValueWasAccountedForOnXvaTime st0" "wasExercised st1"]
      have "p < length (cashExerciseValueWasAccountedForOnXvaTime st0)"
        and "p < length (wasExercised st1)"
        and "cashExerciseValueWasAccountedForOnXvaTime st ! p =
               (cashExerciseValueWasAccountedForOnXvaTime st0 ! p \<or> wasExercised st1 ! p)"
        by simp_all
      with iha w1 True show "cashExerciseValueWasAccountedForOnXvaTime st ! p =
          (settlement c = Cash \<and> accounted_before c ex (Suc i) p)"
        by (simp add: accounted_before_Suc)
    qed
  next
    case False
    with ua ub c have "cashExerciseValueWasAccountedForOnXvaTime st =
        cashExerciseValueWasAccountedForOnXvaTime st0"
      by (auto split: if_splits)
    with iha False show ?thesis by (auto simp: accounted_before_Suc)
  qed
  from w1 ws a1 show ?case by simp
qed

lemma populate_split:
  assumes "populate c samples effPaths ex G st = Inr stF" and "i < length G"
  shows "\<exists>st0 st1. populate c samples effPaths ex (take i G) st = Inr st0 \<and>
           populate_step c samples effPaths ex (G ! i) st0 = Inr st1 \<and>
           populate c samples effPaths ex (drop (Suc i) G) st1 = Inr stF"
proof -
  have "populate c samples effPaths ex (take i G @ G ! i # drop (Suc i) G) st = Inr stF"
    using assms by (simp only: id_take_nth_drop [symmetric])
  then show ?thesis
    by (auto simp: populate_append populate_Cons ebind_eq_Inr)
qed

lemma result_entry_path:
  assumes run: "populate c samples effPaths ex (exerciseXvaTimes c) (populate_init samples r0) = Inr stF"
    and i: "i < length (exerciseXvaTimes c)"
    and t: "exerciseXvaTimes c ! i \<in> set (xvaTimes c)"
    and p: "p < length (result stF ! (xva_index c i + 1))"
  shows "result stF ! (xva_index c i + 1) ! p = replay_value c ex effPaths i p"
proof -
  let ?G = "exerciseXvaTimes c"
  let ?t = "?G ! i"
  let ?acc = cashExerciseValueWasAccountedForOnXvaTime
  from populate_split [OF run i] obtain st0 st where
    p0: "populate c samples effPaths ex (take i ?G) (populate_init samples r0) = Inr st0"
    and s: "populate_step c samples effPaths ex ?t st0 = Inr st"
    and r: "populate c samples effPaths ex (drop (Suc i) ?G) st = Inr stF"
    by blast
  from i have tk: "take (Suc i) ?G = take i ?G @ [?t]" by (simp add: take_Suc_conv_app_nth)
  from p0 s have p1: "populate c samples effPaths ex (take (Suc i) ?G) (populate_init samples r0) = Inr st"
    unfolding tk by (simp add: populate_snoc)
  from populate_prefix_counters [OF p0] i have
    cnt: "counter st0 = i" "xvaCounter st0 = xva_index c i" "exerciseCounter st0 = exercise_index c i"
    by simp_all
  from populate_step_Inr [OF s] obtain st1 st2 where
    a: "exercise_advance c ex ?t st0 = Inr st1"
    and b: "xva_update c samples effPaths ex ?t st1 = Inr st2"
    and c: "st = st2\<lparr>counter := counter st2 + 1\<rparr>" by blast
  note ua = exercise_advance_Inr [OF a]
  note ub = xva_update_Inr [OF b]
  from ua cnt i have cnt1: "counter st1 = i" "xvaCounter st1 = xva_index c i"
    "exerciseCounter st1 = exercise_index c (Suc i)" "?acc st1 = ?acc st0"
    by (auto simp: exercise_index_Suc split: if_splits)
  define EV where "EV = exercisedValue_at c (ex ! exercise_index c (Suc i)) (effPaths ! xva_index c i)
                          (coeffsUndExInto c ! i) (coeffsUndDirty c ! i)"
  define EV' where "EV' = (if settlement c = Cash then applyInverseFilter EV (?acc st0) else EV)"
  define OV where "OV = conditionalExpectation (effPaths ! xva_index c i) (basisFns c) (coeffsOption c ! i)"
  define R where "R = rv_max (rv_const samples 0) (conditionalResult (wasExercised st1) EV' OV)"
  from ub t cnt1 have res2: "result st2 = (result st1)[xva_index c i + 1 := R]"
    and len: "xva_index c i + 1 < length (result st1)"
    and xc2: "xvaCounter st2 = xva_index c i + 1"
    and w2: "wasExercised st2 = wasExercised st1"
    by (simp_all add: R_def EV'_def EV_def OV_def)
  from c xc2 have "xvaCounter st = xva_index c i + 1" by simp
  with populate_counters [OF r] have "result stF ! (xva_index c i + 1) = result st ! (xva_index c i + 1)"
    by simp
  with c res2 len have RF: "result stF ! (xva_index c i + 1) = R" by simp
  from p RF have pR: "p < length R" by simp
  from rv_max_nth [of p "rv_const samples 0" "conditionalResult (wasExercised st1) EV' OV"] pR
  have m: "R ! p = max (rv_const samples 0 ! p) (conditionalResult (wasExercised st1) EV' OV ! p)"
    and pz: "p < length (rv_const samples 0)"
    and pc: "p < length (conditionalResult (wasExercised st1) EV' OV)"
    by (simp_all add: R_def)
  from conditionalResult_nth [OF pc] have
    cr: "conditionalResult (wasExercised st1) EV' OV ! p = (if wasExercised st1 ! p then EV' ! p else OV ! p)"
    and pw: "p < length (wasExercised st1)" and pe: "p < length EV'" by simp_all
  from c w2 have "wasExercised st = wasExercised st1" by simp
  with populate_flags [OF _ p1, of p] i pw have
    w: "wasExercised st1 ! p = exercised_upto ex (exercise_index c (Suc i)) p" by simp
  have ev: "p < length EV \<and> EV' ! p =
      (if settlement c = Cash \<and> accounted_before c ex i p then 0 else EV ! p)"
  proof (cases "settlement c = Cash")
    case True
    with pe have pa: "p < length (applyInverseFilter EV (?acc st0))" by (simp add: EV'_def)
    from applyInverseFilter_nth [OF pa] have
      "p < length EV" "p < length (?acc st0)"
      "applyInverseFilter EV (?acc st0) ! p = (if ?acc st0 ! p then 0 else EV ! p)" by simp_all
    moreover from populate_flags [OF _ p0, of p] i \<open>p < length (?acc st0)\<close> True
    have "?acc st0 ! p = accounted_before c ex i p" by simp
    ultimately show ?thesis using True by (simp add: EV'_def)
  next
    case False
    with pe show ?thesis by (simp add: EV'_def)
  qed
  then have pEV: "p < length EV" by simp
  define A where "A = conditionalExpectation (effPaths ! xva_index c i) (basisFns c) (coeffsUndExInto c ! i)"
  define B where "B = conditionalExpectation (effPaths ! xva_index c i) (basisFns c) (coeffsUndDirty c ! i)"
  have EVc: "EV = conditionalResult (ex ! exercise_index c (Suc i)) A B"
    by (simp add: EV_def exercisedValue_at_def A_def B_def)
  from pEV have "p < length (conditionalResult (ex ! exercise_index c (Suc i)) A B)"
    by (simp only: EVc)
  from conditionalResult_nth [OF this]
  have "EV ! p = (if ex ! exercise_index c (Suc i) ! p then A ! p else B ! p)"
    by (simp only: EVc)
  with RF m pz cr w ev show ?thesis
    by (simp add: replay_value_def Let_def rv_const_nth OV_def A_def B_def)
qed

lemma simulatePath_populate:
  assumes "simulatePath c pathTimes paths isRelevantTime sticky = Inr (res, c')"
    and "exerciseTimes c \<noteq> []"
    and "collect_paths c pathTimes paths isRelevantTime sticky = Inr (simTimes, effPaths, n)"
  shows "\<exists>samples st. front_size paths = Inr samples \<and>
           populate c samples effPaths (exercised c') (exerciseXvaTimes c)
             (populate_init samples (initial_result c samples (length simTimes))) = Inr st \<and>
           res = result st"
  using simulatePath_exercise_run [OF assms(1,2)] assms(3) by auto

lemma simulatePath_indicators:
  assumes "simulatePath c pathTimes paths isRelevantTime False = Inr (res, c')"
    and "exerciseTimes c \<noteq> []"
  shows "\<exists>simTimes effPaths n samples isp.
           collect_paths c pathTimes paths isRelevantTime False = Inr (simTimes, effPaths, n) \<and>
           front_size paths = Inr samples \<and> initial_state_rvs c samples = Inr isp \<and>
           indicator_loop c samples effPaths isp (exerciseTimes c) 0
             (replicate (length (exerciseTimes c) + 1) (filter_const samples False)) = Inr (exercised c')"
  using simulatePath_exercise_run [OF assms(1,2)] by (auto simp: exercise_indicators_def)

text \<open>
  Claim C1, as amended: for a calculator with an exercise schedule, the result entry at
  the valuation time of position \<open>i\<close> is, on every path \<open>p\<close>, the maximum of zero and
  \<^item> the option-value regression at the supplied state, where no indicator of an exercise
    time up to this valuation time is set on the path;
  \<^item> otherwise zero, under cash settlement where the exercise was accounted for at an
    earlier valuation time;
  \<^item> otherwise the exercise-into regression where the indicator of the latest exercise
    time up to this valuation time is set on the path, and the dirty-value regression where
    it is not.
\<close>

theorem simulatePath_result_entry:
  assumes "simulatePath c pathTimes paths isRelevantTime sticky = Inr (res, c')"
    and "exerciseTimes c \<noteq> []"
    and "collect_paths c pathTimes paths isRelevantTime sticky = Inr (simTimes, effPaths, n)"
    and "i < length (exerciseXvaTimes c)"
    and "exerciseXvaTimes c ! i \<in> set (xvaTimes c)"
    and "p < length (res ! (xva_index c i + 1))"
  shows "res ! (xva_index c i + 1) ! p =
           max 0
             (if exercised_upto (exercised c') (exercise_index c (Suc i)) p
              then (if settlement c = Cash \<and> accounted_before c (exercised c') i p then 0
                    else if exercised c' ! exercise_index c (Suc i) ! p
                         then conditionalExpectation (effPaths ! xva_index c i) (basisFns c)
                                (coeffsUndExInto c ! i) ! p
                         else conditionalExpectation (effPaths ! xva_index c i) (basisFns c)
                                (coeffsUndDirty c ! i) ! p)
              else conditionalExpectation (effPaths ! xva_index c i) (basisFns c)
                     (coeffsOption c ! i) ! p)"
proof -
  from simulatePath_populate [OF assms(1-3)] obtain samples st where
    run: "populate c samples effPaths (exercised c') (exerciseXvaTimes c)
            (populate_init samples (initial_result c samples (length simTimes))) = Inr st"
    and res: "res = result st" by blast
  from assms(6) res have "p < length (result st ! (xva_index c i + 1))" by simp
  from result_entry_path [OF run assms(4,5) this] res show ?thesis
    by (simp add: replay_value_def Let_def)
qed

text \<open>
  Claim C6, as amended: the exercised value of a path at a valuation time is the
  exercise-into regression where the indicator of the latest exercise time up to the
  valuation time is set on the path, and the dirty-value regression where it is not. Let
  position \<open>i0\<close> be the first valuation time at or after the exercise on path \<open>p\<close> (the
  path is exercised there and was not accounted for before). Under cash settlement the
  result on this path is the floored exercised value at \<open>i0\<close> and zero at every later
  valuation time \<open>i\<close>; under physical settlement it is the floored exercised value at
  \<open>i0\<close> and at every later valuation time.
\<close>

theorem cash_exercise_once:
  assumes "simulatePath c pathTimes paths isRelevantTime sticky = Inr (res, c')"
    and "exerciseTimes c \<noteq> []"
    and "collect_paths c pathTimes paths isRelevantTime sticky = Inr (simTimes, effPaths, n)"
    and "i < length (exerciseXvaTimes c)"
    and "exerciseXvaTimes c ! i \<in> set (xvaTimes c)"
    and "p < length (res ! (xva_index c i + 1))"
    and "i0 \<le> i"
    and "exerciseXvaTimes c ! i0 \<in> set (xvaTimes c)"
    and "exercised_upto (exercised c') (exercise_index c (Suc i0)) p"
    and "\<not> accounted_before c (exercised c') i0 p"
  shows "(settlement c = Cash \<longrightarrow>
            res ! (xva_index c i + 1) ! p =
              (if i = i0 then max 0 (exercised_value c (exercised c') effPaths i p) else 0)) \<and>
         (settlement c = Physical \<longrightarrow>
            res ! (xva_index c i + 1) ! p = max 0 (exercised_value c (exercised c') effPaths i p))"
proof -
  from simulatePath_populate [OF assms(1-3)] obtain samples st where
    run: "populate c samples effPaths (exercised c') (exerciseXvaTimes c)
            (populate_init samples (initial_result c samples (length simTimes))) = Inr st"
    and res: "res = result st" by blast
  from assms(6) res have "p < length (result st ! (xva_index c i + 1))" by simp
  from result_entry_path [OF run assms(4,5) this] res
  have r: "res ! (xva_index c i + 1) ! p = replay_value c (exercised c') effPaths i p" by simp
  from assms(7) have "exercise_index c (Suc i0) \<le> exercise_index c (Suc i)"
    by (simp add: exercise_index_mono)
  from exercised_upto_mono [OF this assms(9)]
  have e: "exercised_upto (exercised c') (exercise_index c (Suc i)) p" .
  have a: "accounted_before c (exercised c') i p = (i \<noteq> i0)"
  proof (cases "i = i0")
    case True
    with assms(10) show ?thesis by simp
  next
    case False
    with assms(7) have "i0 \<in> {0..<i}" by simp
    with assms(8,9) have "accounted_before c (exercised c') i p"
      unfolding accounted_before_def by blast
    with False show ?thesis by simp
  qed
  from r e a show ?thesis
    by (cases "settlement c") (simp_all add: replay_value_def Let_def exercised_value_def)
qed

lemma populate_wasExercised_length:
  "populate c samples effPaths ex ts st = Inr st' \<Longrightarrow>
   length (wasExercised st') \<le> length (wasExercised st)"
proof (induction ts arbitrary: st)
  case Nil
  then show ?case by simp
next
  case (Cons t ts)
  from Cons.prems obtain st1 where
    s: "populate_step c samples effPaths ex t st = Inr st1"
    and r: "populate c samples effPaths ex ts st1 = Inr st'"
    by (auto simp: populate_Cons ebind_eq_Inr)
  from populate_step_Inr [OF s] obtain sa sb where
    a: "exercise_advance c ex t st = Inr sa"
    and b: "xva_update c samples effPaths ex t sa = Inr sb"
    and c: "st1 = sb\<lparr>counter := counter sb + 1\<rparr>" by blast
  from exercise_advance_Inr [OF a] have "length (wasExercised sa) \<le> length (wasExercised st)"
    by (auto simp: filter_or_def split: if_splits)
  with xva_update_Inr [OF b] c have "length (wasExercised st1) \<le> length (wasExercised st)"
    by simp
  with Cons.IH [OF r] show ?case by simp
qed

text \<open>
  Claim C4, as amended: the indicators recorded at the exercise times mark the time of
  an exercise and do not stay set. What is monotone along the increasing exercise and
  valuation times is the running flag \<^verbatim>\<open>wasExercised\<close> of the result loop: after the
  first \<open>i\<close> times it is set on a path exactly where the indicator of one of the exercise
  times among them is set, and where it is set after the first \<open>i\<close> times it is set after
  the first \<open>i'\<close> times for \<open>i \<le> i'\<close>.
\<close>

theorem wasExercised_monotone:
  assumes "i \<le> i'" and "i' \<le> length (exerciseXvaTimes c)"
    and "populate c samples effPaths ex (take i (exerciseXvaTimes c))
           (populate_init samples r0) = Inr st"
    and "populate c samples effPaths ex (take i' (exerciseXvaTimes c))
           (populate_init samples r0) = Inr st'"
  shows "(\<forall>p. p < length (wasExercised st) \<longrightarrow>
              wasExercised st ! p = exercised_upto ex (exercise_index c i) p) \<and>
         (\<forall>p. p < length (wasExercised st') \<and> wasExercised st ! p \<longrightarrow> wasExercised st' ! p)"
proof
  from assms(1,2) have i: "i \<le> length (exerciseXvaTimes c)" by simp
  show "\<forall>p. p < length (wasExercised st) \<longrightarrow>
              wasExercised st ! p = exercised_upto ex (exercise_index c i) p"
    using populate_flags [OF i assms(3)] by blast
  let ?G = "exerciseXvaTimes c"
  from assms(1) have e: "take i ?G @ drop i (take i' ?G) = take i' ?G"
    by (metis take_take min.absorb1 append_take_drop_id)
  have "populate c samples effPaths ex (take i ?G @ drop i (take i' ?G))
          (populate_init samples r0) = Inr st'"
    unfolding e by (rule assms(4))
  with assms(3) have
    "populate c samples effPaths ex (drop i (take i' ?G)) st = Inr st'"
    by (simp add: populate_append)
  from populate_wasExercised_length [OF this]
  have len: "length (wasExercised st') \<le> length (wasExercised st)" .
  show "\<forall>p. p < length (wasExercised st') \<and> wasExercised st ! p \<longrightarrow> wasExercised st' ! p"
  proof (intro allI impI)
    fix p
    assume h: "p < length (wasExercised st') \<and> wasExercised st ! p"
    with len have "p < length (wasExercised st)" by simp
    with populate_flags [OF i assms(3), of p] h
    have "exercised_upto ex (exercise_index c i) p" by simp
    with exercise_index_mono [OF assms(1), of c]
    have "exercised_upto ex (exercise_index c i') p"
      using exercised_upto_mono by blast
    with populate_flags [OF assms(2,4), of p] h show "wasExercised st' ! p" by simp
  qed
qed

lemmas replay_defs =
  simulatePath_def collect_paths_def collect_step_def front_size_def initial_state_rvs_def
  initial_result_def exercise_indicators_def indicator_step_def interpolate_state_def
  deref_def push_back_pointer_def
  populate_def populate_step_def populate_init_def exercise_advance_def xva_update_def
  exercisedValue_at_def dirty_step_def conditionalExpectation_def conditionalResult_def
  applyInverseFilter_def rv_const_def rv_add_def rv_mul_def rv_max_def rv_gt_def
  filter_const_def filter_and_def filter_or_def filter_not_def
  ebind_def vec_at_def constant_basis_def state_basis_def upt_rec Let_def
  numeral_2_eq_2 numeral_3_eq_3

lemma bermudan_collect:
  "collect_paths bermudan_calc [1, 2] [[[3, 0]], [[3, 0]]] [True, True] False
     = Inr ([1, 2], [[[3, 0]], [[3, 0]]], 2)"
  by (simp add: bermudan_calc_def replay_defs)

lemma bermudan_run:
  "simulatePath bermudan_calc [1, 2] [[[3, 0]], [[3, 0]]] [True, True] False
     = Inr ([[7, 7], [3, 4], [5, 4]],
            bermudan_calc\<lparr>exercised := [[False, False], [True, False], [False, False]]\<rparr>)"
  by (simp add: bermudan_calc_def replay_defs)

lemma bermudan_cash_collect:
  "collect_paths (bermudan_calc\<lparr>settlement := Cash\<rparr>) [1, 2] [[[3, 0]], [[3, 0]]] [True, True] False
     = Inr ([1, 2], [[[3, 0]], [[3, 0]]], 2)"
  by (simp add: bermudan_calc_def replay_defs)

lemma bermudan_cash_run:
  "simulatePath (bermudan_calc\<lparr>settlement := Cash\<rparr>) [1, 2] [[[3, 0]], [[3, 0]]] [True, True] False
     = Inr ([[7, 7], [3, 4], [0, 4]],
            bermudan_calc\<lparr>settlement := Cash,
              exercised := [[False, False], [True, False], [False, False]]\<rparr>)"
  by (simp add: bermudan_calc_def replay_defs)

lemma late_exercise_run:
  "simulatePath late_exercise_calc [1, 2] [[[3, 0]], [[3, 0]]] [True, True] False
     = Inr ([[7, 7], [3, 4], [3, 4]],
            late_exercise_calc\<lparr>exercised := [[False, False], [True, False], [False, False]]\<rparr>)"
  by (simp add: late_exercise_calc_def bermudan_calc_def replay_defs)

lemma swap_run:
  "simulatePath swap_calc [1, 2] [[[3, 0]], [[3, 0]]] [True, True] False
     = Inr ([[7, 7], [- 5, - 5], [- 5, - 5]], swap_calc)"
  by (simp add: swap_calc_def bermudan_calc_def replay_defs)

text \<open>
  Claim C10: in a run that is not sticky, when the exercise time at position \<open>k\<close> is
  greater than every valuation time, the indicators of this and of every later exercise
  time stay false on all paths, and the indicators of the run are those the loop computes
  from the exercise times before position \<open>k\<close> alone.
\<close>

theorem exercise_after_last_valuation_time:
  assumes "simulatePath c pathTimes paths isRelevantTime False = Inr (res, c')"
    and "exerciseTimes c \<noteq> []"
    and "collect_paths c pathTimes paths isRelevantTime False = Inr (simTimes, effPaths, n)"
    and "front_size paths = Inr samples"
    and "initial_state_rvs c samples = Inr isp"
    and "k < length (exerciseTimes c)"
    and "\<forall>x \<in> set (xvaTimes c). x < exerciseTimes c ! k"
    and "k \<le> j" and "j < length (exerciseTimes c)"
  shows "exercised c' ! (j + 1) = filter_const samples False \<and>
         indicator_loop c samples effPaths isp (take k (exerciseTimes c)) 0
           (replicate (length (exerciseTimes c) + 1) (filter_const samples False))
         = Inr (exercised c')"
proof -
  let ?init = "replicate (length (exerciseTimes c) + 1) (filter_const samples False)"
  from simulatePath_indicators [OF assms(1,2)] assms(3-5) have
    l: "indicator_loop c samples effPaths isp (exerciseTimes c) 0 ?init = Inr (exercised c')"
    by auto
  from assms(7) have lb: "lower_bound (xvaTimes c) (exerciseTimes c ! k) = length (xvaTimes c)"
    by (simp add: lower_bound_end)
  from indicator_loop_break [OF l assms(6) lb] have
    a: "\<forall>i. 0 + k < i \<longrightarrow> exercised c' ! i = ?init ! i"
    and b: "indicator_loop c samples effPaths isp (take k (exerciseTimes c)) 0 ?init = Inr (exercised c')"
    by blast+
  from assms(8) have "0 + k < j + 1" by simp
  with a have "exercised c' ! (j + 1) = ?init ! (j + 1)" by blast
  also from assms(9) have "\<dots> = filter_const samples False" by simp
  finally show ?thesis using b by simp
qed

subsection \<open>The statements at the example calculators\<close>

theorem simulatePath_floor_witness:
  "exerciseTimes bermudan_calc \<noteq> [] \<and> (3::real) \<in> set ([[7, 7], [3, 4], [5, 4]] ! 1) \<and> (0::real) \<le> 3"
  using simulatePath_floor [OF bermudan_run, of 1 3] by (simp add: bermudan_calc_def)

text \<open>
  Claim C5 as stated fails without an exercise schedule: the swap example returns -5 at
  both valuation times.
\<close>

theorem floor_without_exercise_counterexample:
  "simulatePath swap_calc [1, 2] [[[3, 0]], [[3, 0]]] [True, True] False
     = Inr ([[7, 7], [- 5, - 5], [- 5, - 5]], swap_calc) \<and>
   exerciseTimes swap_calc = [] \<and> [[7, 7], [- 5, - 5], [- 5, - 5]] ! 1 ! 0 < (0::real)"
  using swap_run by (simp add: swap_calc_def)

lemma bermudan_replay_twice:
  "simulatePath (bermudan_calc\<lparr>exercised := [[False, False], [True, False], [False, False]]\<rparr>)
     [1, 2] [[[3, 0]], [[3, 0]]] [True, True] False
   = Inr ([[7, 7], [3, 4], [5, 4]],
          bermudan_calc\<lparr>exercised := [[False, False], [True, False], [False, False]]\<rparr>)"
  using simulatePath_replay_twice [OF bermudan_run] .

lemma bermudan_indices:
  "xva_index bermudan_calc 0 = 0" "xva_index bermudan_calc 1 = 1"
  "exercise_index bermudan_calc (Suc 0) = 1" "exercise_index bermudan_calc (Suc 1) = 2"
  by (simp_all add: xva_index_def exercise_index_def bermudan_calc_def)

text \<open>
  Claim C1 as stated fails on a path that is not exercised: on the second path of the
  Bermudan example no indicator is set, the floored dirty-value regression is 5, and the
  result at the first valuation time is 4, the option-value regression.
\<close>

theorem result_entry_counterexample:
  "simulatePath bermudan_calc [1, 2] [[[3, 0]], [[3, 0]]] [True, True] False
     = Inr ([[7, 7], [3, 4], [5, 4]],
            bermudan_calc\<lparr>exercised := [[False, False], [True, False], [False, False]]\<rparr>) \<and>
   \<not> [[False, False], [True, False], [False, False]] ! 1 ! 1 \<and>
   rv_max (rv_const 2 0)
     (conditionalExpectation [[3, 0]] (basisFns bermudan_calc) (coeffsUndDirty bermudan_calc ! 0)) ! 1 = 5 \<and>
   [[7, 7], [3, 4], [5, 4]] ! 1 ! 1 = (4::real)"
  using bermudan_run by (simp add: bermudan_calc_def replay_defs)

theorem simulatePath_result_entry_witness:
  "exercised_upto [[False, False], [True, False], [False, False]] (exercise_index bermudan_calc (Suc 0)) 0 \<and>
   [[7, 7], [3, 4], [5, 4]] ! (xva_index bermudan_calc 0 + 1) ! 0 =
     max 0 (conditionalExpectation ([[[3, 0]], [[3, 0]]] ! xva_index bermudan_calc 0)
              (basisFns bermudan_calc) (coeffsUndExInto bermudan_calc ! 0) ! 0)"
proof -
  have e: "exercised_upto [[False, False], [True, False], [False, False]] 1 0"
    by (simp add: exercised_upto_def)
  from simulatePath_result_entry [OF bermudan_run _ bermudan_collect, of 0 0] e
  show ?thesis
    by (simp add: bermudan_indices) (simp add: bermudan_calc_def)
qed

lemma bermudan_cash_indices:
  "xva_index (bermudan_calc\<lparr>settlement := Cash\<rparr>) 0 = 0"
  "xva_index (bermudan_calc\<lparr>settlement := Cash\<rparr>) 1 = 1"
  "exercise_index (bermudan_calc\<lparr>settlement := Cash\<rparr>) (Suc 0) = 1"
  "exercise_index (bermudan_calc\<lparr>settlement := Cash\<rparr>) (Suc 1) = 2"
  by (simp_all add: xva_index_def exercise_index_def bermudan_calc_def)

theorem cash_exercise_once_witness:
  "settlement (bermudan_calc\<lparr>settlement := Cash\<rparr>) = Cash \<and>
   exercised_upto [[False, False], [True, False], [False, False]]
     (exercise_index (bermudan_calc\<lparr>settlement := Cash\<rparr>) (Suc 0)) 0 \<and>
   \<not> accounted_before (bermudan_calc\<lparr>settlement := Cash\<rparr>)
       [[False, False], [True, False], [False, False]] 0 0 \<and>
   [[7, 7], [3, 4], [0, 4]] ! (xva_index (bermudan_calc\<lparr>settlement := Cash\<rparr>) 1 + 1) ! 0 = (0::real)"
proof -
  let ?C = "bermudan_calc\<lparr>settlement := Cash\<rparr>"
  let ?E = "[[False, False], [True, False], [False, False]]"
  let ?C' = "bermudan_calc\<lparr>settlement := Cash, exercised := ?E\<rparr>"
  have ne: "exerciseTimes ?C \<noteq> []" by (simp add: bermudan_calc_def)
  have i: "1 < length (exerciseXvaTimes ?C)" by (simp add: bermudan_calc_def)
  have t: "exerciseXvaTimes ?C ! 1 \<in> set (xvaTimes ?C)" by (simp add: bermudan_calc_def)
  have x1: "xva_index ?C (Suc 0) = Suc 0" by (simp add: xva_index_def bermudan_calc_def)
  have p: "0 < length ([[7, 7], [3, 4], [0, 4::real]] ! (xva_index ?C 1 + 1))" by (simp add: x1)
  have i0: "(0::nat) \<le> 1" by simp
  have t0: "exerciseXvaTimes ?C ! 0 \<in> set (xvaTimes ?C)" by (simp add: bermudan_calc_def)
  have n0: "exercise_index ?C (Suc 0) = Suc 0" by (simp add: exercise_index_def bermudan_calc_def)
  have e0: "exercised_upto (exercised ?C') (exercise_index ?C (Suc 0)) 0"
    by (simp add: n0 exercised_upto_def)
  have na: "\<not> accounted_before ?C (exercised ?C') 0 0" by simp
  from cash_exercise_once [OF bermudan_cash_run ne bermudan_cash_collect i t p i0 t0 e0 na]
  have "[[7, 7], [3, 4], [0, 4]] ! (xva_index ?C 1 + 1) ! 0 = (0::real)" by simp
  with e0 na show ?thesis by (simp add: bermudan_calc_def)
qed

lemma cash_gap_run:
  "simulatePath cash_gap_calc [2, 3] [[[3, 0]], [[3, 0]]] [True, True] False
     = Inr ([[7, 7], [5, 4], [0, 4]],
            cash_gap_calc\<lparr>exercised := [[False, False], [True, False], [False, False]]\<rparr>)"
  by (simp add: cash_gap_calc_def bermudan_calc_def replay_defs)

text \<open>
  Claim C6 as stated fails: what an exercised path contributes is not the exercise-into
  value at every valuation time. On the first path of the Bermudan example, exercised at
  the first exercise time and settled physically, the result at the second valuation time
  is 5, the dirty-value regression, where the exercise-into regression is 3. In the
  cash-settled example the path is exercised at the first exercise time, before the first
  valuation time, and the one amount of the result, at the first valuation time, is again
  5 where the exercise-into regression is 3.
\<close>

theorem exercise_into_contribution_counterexample:
  "simulatePath bermudan_calc [1, 2] [[[3, 0]], [[3, 0]]] [True, True] False
     = Inr ([[7, 7], [3, 4], [5, 4]],
            bermudan_calc\<lparr>exercised := [[False, False], [True, False], [False, False]]\<rparr>) \<and>
   settlement bermudan_calc = Physical \<and>
   conditionalExpectation [[3, 0]] (basisFns bermudan_calc) (coeffsUndExInto bermudan_calc ! 1) ! 0 = 3 \<and>
   [[7, 7], [3, 4], [5, 4]] ! 2 ! 0 = (5::real) \<and>
   simulatePath cash_gap_calc [2, 3] [[[3, 0]], [[3, 0]]] [True, True] False
     = Inr ([[7, 7], [5, 4], [0, 4]],
            cash_gap_calc\<lparr>exercised := [[False, False], [True, False], [False, False]]\<rparr>) \<and>
   settlement cash_gap_calc = Cash \<and>
   conditionalExpectation [[3, 0]] (basisFns cash_gap_calc) (coeffsUndExInto cash_gap_calc ! 2) ! 0 = 3 \<and>
   [[7, 7], [5, 4], [0, 4]] ! 1 ! 0 = (5::real)"
  using bermudan_run cash_gap_run
  by (simp add: cash_gap_calc_def bermudan_calc_def conditionalExpectation_def rv_const_def
      rv_add_def rv_mul_def constant_basis_def state_basis_def numeral_2_eq_2)

text \<open>
  Claim C9 fails on the code for a calculator with two external model indices whose first
  exercise time is not after the first valuation time. The second \<^verbatim>\<open>push_back\<close> of the
  initial state moves the first vector, the pointer kept to it dangles, and the
  interpolation of the state at the exercise time reads through it: what the call returns
  is not determined by its inputs, for the first call as for the second.
\<close>

theorem two_factor_run_reads_dangling_pointer:
  "initial_state_rvs two_factor_calc 2 = Inr [None, Some [0, 0]] \<and>
   lower_bound (xvaTimes two_factor_calc) (exerciseTimes two_factor_calc ! 0) = 0 \<and>
   simulatePath two_factor_calc [1, 2] [[[3, 0], [1, 1]], [[3, 0], [1, 1]]] [True, True] False
     = Inl DanglingPointer"
  by (simp add: two_factor_calc_def bermudan_calc_def replay_defs)

text \<open>
  Claim C4 as stated fails: on the first path of the Bermudan example the indicator is set
  at the first exercise time and not set at the second.
\<close>

theorem sticky_indicator_counterexample:
  "simulatePath bermudan_calc [1, 2] [[[3, 0]], [[3, 0]]] [True, True] False
     = Inr ([[7, 7], [3, 4], [5, 4]],
            bermudan_calc\<lparr>exercised := [[False, False], [True, False], [False, False]]\<rparr>) \<and>
   exercised (bermudan_calc\<lparr>exercised := [[False, False], [True, False], [False, False]]\<rparr>) ! 1 ! 0 \<and>
   \<not> exercised (bermudan_calc\<lparr>exercised := [[False, False], [True, False], [False, False]]\<rparr>) ! 2 ! 0"
  using bermudan_run by simp

lemma bermudan_populate_1:
  "populate bermudan_calc 2 [[[3, 0]], [[3, 0]]] [[False, False], [True, False], [False, False]]
     (take 1 (exerciseXvaTimes bermudan_calc)) (populate_init 2 (initial_result bermudan_calc 2 2))
   = Inr \<lparr> counter = 1, xvaCounter = 1, exerciseCounter = 1,
           cashExerciseValueWasAccountedForOnXvaTime = [False, False],
           wasExercised = [True, False], result = [[7, 7], [3, 4], [0, 0]] \<rparr>"
  by (simp add: bermudan_calc_def replay_defs)

lemma bermudan_populate_2:
  "populate bermudan_calc 2 [[[3, 0]], [[3, 0]]] [[False, False], [True, False], [False, False]]
     (take 2 (exerciseXvaTimes bermudan_calc)) (populate_init 2 (initial_result bermudan_calc 2 2))
   = Inr \<lparr> counter = 2, xvaCounter = 2, exerciseCounter = 2,
           cashExerciseValueWasAccountedForOnXvaTime = [False, False],
           wasExercised = [True, False], result = [[7, 7], [3, 4], [5, 4]] \<rparr>"
  by (simp add: bermudan_calc_def replay_defs)

theorem wasExercised_monotone_witness:
  "[True, False] ! 0 = exercised_upto [[False, False], [True, False], [False, False]]
                         (exercise_index bermudan_calc 1) 0 \<and>
   [True, False] ! 0"
proof -
  let ?E = "[[False, False], [True, False], [False, False]]"
  have le: "(1::nat) \<le> 2" by simp
  have le': "(2::nat) \<le> length (exerciseXvaTimes bermudan_calc)" by (simp add: bermudan_calc_def)
  from wasExercised_monotone [OF le le' bermudan_populate_1 bermudan_populate_2]
  have s: "\<forall>p. p < length [True, False] \<longrightarrow>
              [True, False] ! p = exercised_upto ?E (exercise_index bermudan_calc 1) p"
    and m: "\<forall>p. p < length [True, False] \<and> [True, False] ! p \<longrightarrow> [True, False] ! p"
    by simp_all
  have l: "(0::nat) < length [True, False]" by simp
  from s [rule_format, OF l]
  have a: "[True, False] ! 0 = exercised_upto ?E (exercise_index bermudan_calc 1) 0" .
  have b: "[True, False] ! 0" by simp
  from a b show ?thesis by blast
qed

text \<open>
  With three exercise times the indicators of a path can be set, not set and set again:
  the decision at an exercise time looks at the indicator of the exercise time before it
  only. On the first path of the example the indicators are set at the first and at the
  third exercise time.
\<close>

lemma three_exercise_run:
  "simulatePath three_exercise_calc [1, 2, 3] [[[3, 0]], [[3, 0]], [[3, 0]]]
     [True, True, True] False
   = Inr ([[7, 7], [3, 4], [5, 4], [3, 4]],
          three_exercise_calc\<lparr>exercised :=
            [[False, False], [True, False], [False, False], [True, False]]\<rparr>)"
  by (simp add: three_exercise_calc_def bermudan_calc_def replay_defs)

lemma late_exercise_collect:
  "collect_paths late_exercise_calc [1, 2] [[[3, 0]], [[3, 0]]] [True, True] False
     = Inr ([1, 2], [[[3, 0]], [[3, 0]]], 2)"
  by (simp add: late_exercise_calc_def bermudan_calc_def replay_defs)

theorem exercise_after_last_valuation_time_witness:
  "exerciseTimes late_exercise_calc ! 1 = 3 \<and> xvaTimes late_exercise_calc = [1, 2] \<and>
   exercised (late_exercise_calc\<lparr>exercised := [[False, False], [True, False], [False, False]]\<rparr>) ! (1 + 1)
     = filter_const 2 False \<and>
   indicator_loop late_exercise_calc 2 [[[3, 0]], [[3, 0]]] [Some [0, 0]]
     (take 1 (exerciseTimes late_exercise_calc)) 0
     (replicate (length (exerciseTimes late_exercise_calc) + 1) (filter_const 2 False))
   = Inr (exercised (late_exercise_calc\<lparr>exercised := [[False, False], [True, False], [False, False]]\<rparr>))"
proof -
  have ne: "exerciseTimes late_exercise_calc \<noteq> []"
    by (simp add: late_exercise_calc_def)
  have fs: "front_size [[[3, 0]], [[3::real, 0]]] = Inr 2" by (simp add: front_size_def)
  have f2: "filter_const 2 False = [False, False]" by (simp add: filter_const_def numeral_2_eq_2)
  have isp: "initial_state_rvs late_exercise_calc 2 = Inr [Some [0, 0]]"
    by (simp add: late_exercise_calc_def bermudan_calc_def replay_defs)
  have k: "1 < length (exerciseTimes late_exercise_calc)" by (simp add: late_exercise_calc_def)
  have x: "\<forall>x \<in> set (xvaTimes late_exercise_calc). x < exerciseTimes late_exercise_calc ! 1"
    by (simp add: late_exercise_calc_def bermudan_calc_def)
  from exercise_after_last_valuation_time [OF late_exercise_run ne late_exercise_collect fs isp k x _ k]
  show ?thesis by (simp add: late_exercise_calc_def bermudan_calc_def f2)
qed

section \<open>The engine: calibration and classification\<close>

subsection \<open>Without an exercise schedule\<close>

text \<open>
  Claim C2: when \<open>calculate\<close> returns results for an engine with no exercise schedule,
  the option value of the results equals their underlying value, and so does the value
  the calculator carries for the reference date.
\<close>

theorem calculate_without_exercise:
  assumes "calculate e = (Inr r, n)" and "exercise e = None"
  shows "resultValue' r = resultUnderlyingNpv r \<and> resultValue (amcCalculator r) = resultUnderlyingNpv r"
proof -
  from assms(1) obtain infos exTimes xvTimes exXv simTimes pv where
    "calibrate e infos exTimes xvTimes exXv simTimes pv = Inr r"
    by (auto simp: calculate_def Let_def split: if_splits sum.splits)
  with assms(2) show ?thesis
    by (auto simp: calibrate_def ebind_eq_Inr Let_def)
qed

subsection \<open>The exercise decision of the backward walk\<close>

lemma vec_set_eq_Inr: "(vec_set xs i x = Inr ys) = (i < length xs \<and> ys = xs[i := x])"
  by (auto simp: vec_set_def)

lemma cashflow_step_option:
  assumes "cashflow_step e infos pv simTimes t i st = Inr st'"
  shows "pathValueOption st' = pathValueOption st \<and> counter' st' = counter' st \<and>
         coeffsUndExInto' st' = coeffsUndExInto' st \<and>
         coeffsContinuationValue' st' = coeffsContinuationValue' st"
proof -
  from assms obtain status cf where
    r: "(case status of
          CfOpen \<Rightarrow>
            if t < exIntoCriterionTime cf
            then ebind (cashflowPathValue e cf pv simTimes) (\<lambda>tmp.
                   Inr (st\<lparr> pathValueUndDirty := rv_add (pathValueUndDirty st) tmp,
                            pathValueUndExInto := rv_add (pathValueUndExInto st) tmp,
                            cfStatus := (cfStatus st)[i := CfDone] \<rparr>))
            else if t < payTime cf
            then ebind (cashflowPathValue e cf pv simTimes) (\<lambda>tmp.
                 ebind (vec_set (amountCache st) i tmp) (\<lambda>cache.
                   Inr (st\<lparr> pathValueUndDirty := rv_add (pathValueUndDirty st) tmp,
                            amountCache := cache,
                            cfStatus := (cfStatus st)[i := CfCached] \<rparr>)))
            else Inr st
        | CfCached \<Rightarrow>
            if t < exIntoCriterionTime cf
            then ebind (vec_at (amountCache st) i) (\<lambda>a.
                   Inr (st\<lparr> pathValueUndExInto := rv_add (pathValueUndExInto st) a,
                            cfStatus := (cfStatus st)[i := CfDone],
                            amountCache := (amountCache st)[i := []] \<rparr>))
            else Inr st
        | CfDone \<Rightarrow> Inr st) = Inr st'"
    by (auto simp: cashflow_step_def ebind_eq_Inr)
  show ?thesis
  proof (cases status)
    case CfOpen
    with r show ?thesis by (auto simp: ebind_eq_Inr split: if_splits)
  next
    case CfCached
    with r show ?thesis by (auto simp: ebind_eq_Inr split: if_splits)
  next
    case CfDone
    with r show ?thesis by simp
  qed
qed

lemma cashflow_loop_option:
  "foldM_err (cashflow_step e infos pv simTimes t) is st = Inr st' \<Longrightarrow>
   pathValueOption st' = pathValueOption st \<and> counter' st' = counter' st \<and>
   coeffsUndExInto' st' = coeffsUndExInto' st \<and>
   coeffsContinuationValue' st' = coeffsContinuationValue' st"
proof (induction "is" arbitrary: st)
  case Nil
  then show ?case by simp
next
  case (Cons i "is")
  from Cons.prems obtain st1 where
    a: "cashflow_step e infos pv simTimes t i st = Inr st1"
    and b: "foldM_err (cashflow_step e infos pv simTimes t) is st1 = Inr st'"
    by (auto split: sum.splits)
  from cashflow_step_option [OF a] Cons.IH [OF b] show ?case by simp
qed

lemma exercise_step_rule:
  assumes "exercise_step e regressor st = Inr st'"
    and "p < length (pathValueOption st')"
  shows "\<exists>cEx cCont.
           counter' st < length (coeffsUndExInto' st) \<and> cEx = coeffsUndExInto' st ! counter' st \<and>
           counter' st < length (coeffsContinuationValue' st) \<and>
           coeffsContinuationValue' st' = (coeffsContinuationValue' st)[counter' st := cCont] \<and>
           coeffsUndExInto' st' = coeffsUndExInto' st \<and>
           pathValueUndExInto st' = pathValueUndExInto st \<and>
           pathValueUndDirty st' = pathValueUndDirty st \<and>
           counter' st' = counter' st \<and>
           pathValueOption st' ! p =
             (if conditionalExpectation regressor (basisSystem e) cCont ! p
                   < conditionalExpectation regressor (basisSystem e) cEx ! p \<and>
                 0 < conditionalExpectation regressor (basisSystem e) cEx ! p
              then pathValueUndExInto st ! p else pathValueOption st ! p)"
proof -
  define n where "n = calibrationSamples e"
  define c where "c = counter' st"
  define cEx where "cEx = coeffsUndExInto' st ! c"
  define EV where "EV = conditionalExpectation regressor (basisSystem e) cEx"
  define cCont where "cCont = regressionCoefficients e (pathValueOption st) regressor (basisSystem e)
                       (rv_gt EV (rv_const n 0))"
  define CV where "CV = conditionalExpectation regressor (basisSystem e) cCont"
  define F where "F = filter_and (rv_gt EV CV) (rv_gt EV (rv_const n 0))"
  from assms(1) have
    a: "c < length (coeffsUndExInto' st)" "c < length (coeffsContinuationValue' st)"
    and s: "st' = st\<lparr> coeffsContinuationValue' := (coeffsContinuationValue' st)[c := cCont],
                      pathValueOption := conditionalResult F (pathValueUndExInto st) (pathValueOption st),
                      coeffsOption' := (coeffsOption' st)[c :=
                         regressionCoefficients e
                           (conditionalResult F (pathValueUndExInto st) (pathValueOption st))
                           regressor (basisSystem e) []] \<rparr>"
    unfolding exercise_step_def n_def c_def cEx_def EV_def cCont_def CV_def F_def
    by (auto simp: Let_def ebind_eq_Inr vec_at_eq_Inr vec_set_eq_Inr)
  from s assms(2) have pl: "p < length (conditionalResult F (pathValueUndExInto st) (pathValueOption st))"
    by simp
  from conditionalResult_nth [OF pl] have
    pF: "p < length F"
    and v: "conditionalResult F (pathValueUndExInto st) (pathValueOption st) ! p
              = (if F ! p then pathValueUndExInto st ! p else pathValueOption st ! p)"
    by simp_all
  from pF have "F ! p = (CV ! p < EV ! p \<and> 0 < EV ! p)"
    by (auto simp: F_def filter_and_def rv_gt_def rv_const_def)
  with v s a show ?thesis
    by (intro exI [of _ cEx] exI [of _ cCont]) (simp add: c_def cEx_def EV_def CV_def)
qed

lemma calibration_step_rule:
  assumes "calibration_step e infos pv simTimes exTimes xvTimes t st = Inr st'"
    and "regressor_at e pv simTimes t = Inr regressor"
    and "t \<in> set exTimes"
    and "p < length (pathValueOption st')"
  shows "exercise_rule e regressor st st' p"
proof -
  from assms(1,2,3) obtain st1 st2 st3 st4 st5 where
    s1: "foldM_err (cashflow_step e infos pv simTimes t) [0..<length infos] st = Inr st1"
    and s2: "(if exercise e \<noteq> None
            then ebind (vec_set (coeffsUndExInto' st1) (counter' st1)
                          (regressionCoefficients e (pathValueUndExInto st1) regressor
                             (basisSystem e) []))
                   (\<lambda>cs. Inr (st1\<lparr> coeffsUndExInto' := cs \<rparr>))
            else Inr st1) = Inr st2"
    and s3: "exercise_step e regressor st2 = Inr st3"
    and s4: "(if t \<in> set xvTimes
            then ebind (vec_set (coeffsUndDirty' st3) (counter' st3)
                          (regressionCoefficients e (pathValueUndDirty st3) regressor
                             (basisSystem e) []))
                   (\<lambda>cs. Inr (st3\<lparr> coeffsUndDirty' := cs \<rparr>))
            else Inr st3) = Inr st4"
    and s5: "(if exercise e \<noteq> None
            then ebind (vec_set (coeffsOption' st4) (counter' st4)
                          (regressionCoefficients e (pathValueOption st4) regressor
                             (basisSystem e) []))
                   (\<lambda>cs. Inr (st4\<lparr> coeffsOption' := cs \<rparr>))
            else Inr st4) = Inr st5"
    and s6: "st' = st5\<lparr> counter' := counter' st5 - 1 \<rparr>"
    by (auto simp: calibration_step_def ebind_eq_Inr)
  note c1 = cashflow_loop_option [OF s1]
  from s2 have c2: "pathValueOption st2 = pathValueOption st1" "counter' st2 = counter' st1"
    "pathValueUndExInto st2 = pathValueUndExInto st1"
    by (auto simp: ebind_eq_Inr split: if_splits)
  from s4 have c4: "pathValueOption st4 = pathValueOption st3" "counter' st4 = counter' st3"
    "pathValueUndExInto st4 = pathValueUndExInto st3"
    "coeffsUndExInto' st4 = coeffsUndExInto' st3"
    "coeffsContinuationValue' st4 = coeffsContinuationValue' st3"
    by (auto simp: ebind_eq_Inr split: if_splits)
  from s5 have c5: "pathValueOption st5 = pathValueOption st4" "counter' st5 = counter' st4"
    "pathValueUndExInto st5 = pathValueUndExInto st4"
    "coeffsUndExInto' st5 = coeffsUndExInto' st4"
    "coeffsContinuationValue' st5 = coeffsContinuationValue' st4"
    by (auto simp: ebind_eq_Inr split: if_splits)
  from s6 c5 c4 assms(4) have p3: "p < length (pathValueOption st3)" by simp
  from exercise_step_rule [OF s3 p3] obtain cEx cCont where
    r: "counter' st2 < length (coeffsUndExInto' st2)" "cEx = coeffsUndExInto' st2 ! counter' st2"
       "counter' st2 < length (coeffsContinuationValue' st2)"
       "coeffsContinuationValue' st3 = (coeffsContinuationValue' st2)[counter' st2 := cCont]"
       "coeffsUndExInto' st3 = coeffsUndExInto' st2"
       "pathValueUndExInto st3 = pathValueUndExInto st2"
       "counter' st3 = counter' st2"
       "pathValueOption st3 ! p =
             (if conditionalExpectation regressor (basisSystem e) cCont ! p
                   < conditionalExpectation regressor (basisSystem e) cEx ! p \<and>
                 0 < conditionalExpectation regressor (basisSystem e) cEx ! p
              then pathValueUndExInto st2 ! p else pathValueOption st2 ! p)"
    by blast
  from r(3,4) have cc: "coeffsContinuationValue' st3 ! counter' st2 = cCont" by simp
  from s6 c5 c4 r c2 c1 cc show ?thesis
    by (simp add: exercise_rule_def Let_def)
qed

lemma calibration_walk_split:
  assumes "calibration_walk e infos pv simTimes exTimes xvTimes (pre @ t # post) st0 = Inr stF"
  shows "\<exists>st st'. calibration_walk e infos pv simTimes exTimes xvTimes pre st0 = Inr st \<and>
           calibration_step e infos pv simTimes exTimes xvTimes t st = Inr st' \<and>
           calibration_walk e infos pv simTimes exTimes xvTimes post st' = Inr stF"
proof -
  let ?step = "calibration_step e infos pv simTimes exTimes xvTimes"
  from assms have "ebind (foldM_err ?step pre st0) (foldM_err ?step (t # post)) = Inr stF"
    by (simp add: calibration_walk_def foldM_err_append)
  then obtain st where a: "foldM_err ?step pre st0 = Inr st"
    and b: "foldM_err ?step (t # post) st = Inr stF"
    by (auto simp: ebind_eq_Inr)
  from b obtain st' where c: "?step t st = Inr st'" and d: "foldM_err ?step post st' = Inr stF"
    by (cases "?step t st") auto
  from a c d show ?thesis by (auto simp: calibration_walk_def)
qed

text \<open>
  Claim C3: at every exercise time \<open>t\<close> of the backward walk the step from \<open>st\<close> to \<open>st'\<close>
  sets, on every path \<open>p\<close>, the option value to the exercise-into value exactly where the
  regressed exercise value is greater than the regressed continuation value and greater
  than zero; on every other path, a tie or an exercise value that is not positive
  included, the option value is the one before the step.
\<close>

theorem calibration_exercise_rule:
  assumes "calibration_walk e infos pv simTimes exTimes xvTimes (pre @ t # post) st0 = Inr stF"
    and "t \<in> set exTimes"
    and "regressor_at e pv simTimes t = Inr regressor"
  shows "\<exists>st st'. calibration_walk e infos pv simTimes exTimes xvTimes pre st0 = Inr st \<and>
           calibration_step e infos pv simTimes exTimes xvTimes t st = Inr st' \<and>
           calibration_walk e infos pv simTimes exTimes xvTimes post st' = Inr stF \<and>
           (\<forall>p. p < length (pathValueOption st') \<longrightarrow> exercise_rule e regressor st st' p)"
proof -
  from calibration_walk_split [OF assms(1)] obtain st st' where
    a: "calibration_walk e infos pv simTimes exTimes xvTimes pre st0 = Inr st"
    and b: "calibration_step e infos pv simTimes exTimes xvTimes t st = Inr st'"
    and c: "calibration_walk e infos pv simTimes exTimes xvTimes post st' = Inr stF"
    by blast
  from calibration_step_rule [OF b assms(3,2)] a b c show ?thesis by blast
qed

subsection \<open>Evaluating the example engine\<close>

lemmas engine_defs =
  calculate_def calibrate_def calibration_walk_def calibration_step_def calibration_init_def
  exercise_step_def regressor_at_def cashflow_step_def remaining_step_def cashflowPathValue_def
  flowStates_def timeIndex_def vec_set_def
  createCashflowInfo_def commonInfo_def fixedAmount_def exercise_times_def xva_times_def
  cashflow_gen_times_def simulate_paths_def set_insert_all_def set_insert_def set_erase_def
  date_le_def date_less_def thirty360_def expectation_def meanOnState_def
  conditionalExpectation_def conditionalResult_def rv_const_def rv_add_def rv_mul_def
  rv_div_def rv_gt_def filter_and_def ebind_def vec_at_def constant_basis_def state_basis_def
  upt_rec Let_def numeral_2_eq_2

lemma exampleEngine_calculate:
  "calculate exampleEngine =
     (Inr \<lparr> resultUnderlyingNpv = 100, resultValue' = 50,
            amcCalculator =
              \<lparr> externalModelIndices = [0], settlement = Physical,
                exerciseXvaTimes = [1], exerciseTimes = [1], xvaTimes = [1],
                coeffsUndDirty = [[0, 100]], coeffsUndExInto = [[0, 100]],
                coeffsContinuationValue = [[0, 0]], coeffsOption = [[0, 50]],
                basisFns = [constant_basis, state_basis], resultValue = 50,
                initialState = [0], exercised = [] \<rparr> \<rparr>, 2)"
  by (simp add: exampleEngine_def blankFlow_def engine_defs)

subsection \<open>Classification\<close>

lemma unwrapFxLinked_snd: "snd (unwrapFxLinked e (w, f)) = stripFxLinked f"
  by (cases f) (simp_all add: unwrapFxLinked_def Let_def)

lemma unwrapStripped_snd: "snd (unwrapStripped (w, f)) = stripStripped f"
  by (cases f) (simp_all add: unwrapStripped_def)

lemma unwrapCapFloor_snd: "snd (unwrapCapFloor (w, f)) = stripCapFloor f"
  by (cases f) (simp_all add: unwrapCapFloor_def)

lemma unwrap_all_snd:
  "snd (unwrapCapFloor (unwrapStripped (unwrapFxLinked e (w, f))))
     = stripCapFloor (stripStripped (stripFxLinked f))"
proof -
  obtain w1 f1 where a: "unwrapFxLinked e (w, f) = (w1, f1)" by (cases "unwrapFxLinked e (w, f)")
  obtain w2 f2 where b: "unwrapStripped (w1, f1) = (w2, f2)" by (cases "unwrapStripped (w1, f1)")
  from a have "f1 = stripFxLinked f" using unwrapFxLinked_snd [of e w f] by simp
  moreover from b have "f2 = stripStripped f1" using unwrapStripped_snd [of w1 f1] by simp
  ultimately show ?thesis using a b unwrapCapFloor_snd [of w2 f2] by simp
qed

lemma couponInfo_unhandled:
  "\<not> terminalCoupon f \<Longrightarrow> couponInfo e info w f l k = Inl (UnhandledCoupon l k)"
  by (cases f) (simp_all add: couponInfo_def)

lemma couponInfo_terminal:
  "terminalCoupon f \<Longrightarrow> \<exists>i. couponInfo e info w f l k = Inr i"
  by (cases f) (simp_all add: couponInfo_def)

lemma commonInfo_fail:
  "\<not> accrualCheck flow \<Longrightarrow>
   commonInfo e flow ccy p l k = Inl (AccrualStartNotBeforePayDate l k)"
  by (simp add: commonInfo_def accrualCheck_def Let_def split: if_splits)

lemma commonInfo_pass:
  "accrualCheck flow \<Longrightarrow> \<exists>info. commonInfo e flow ccy p l k = Inr info"
  by (simp add: commonInfo_def accrualCheck_def Let_def split: if_splits)

lemma createCashflowInfo_unrecognised:
  assumes "\<not> recognised flow"
  shows "createCashflowInfo e flow ccy p l k = Inl (classification_error flow l k)"
proof (cases "accrualCheck flow")
  case False
  then show ?thesis
    by (simp add: createCashflowInfo_def commonInfo_fail classification_error_def)
next
  case True
  from commonInfo_pass [OF True] obtain info where
    i: "commonInfo e flow ccy p l k = Inr info" by blast
  from assms have nt: "\<not> terminalCoupon (stripCapFloor (stripStripped (stripFxLinked flow)))"
    by (cases flow) simp_all
  have "createCashflowInfo e flow ccy p l k
          = couponInfo e info (fst (unwrapCapFloor (unwrapStripped (unwrapFxLinked e (noWrapper, flow)))))
              (stripCapFloor (stripStripped (stripFxLinked flow))) l k"
    using assms i unwrap_all_snd [of e noWrapper flow]
    by (cases flow) (simp_all add: createCashflowInfo_def case_prod_beta)
  with couponInfo_unhandled [OF nt] True show ?thesis
    by (simp add: classification_error_def)
qed

lemma createCashflowInfo_classifies:
  assumes "classifies flow"
  shows "\<exists>info. createCashflowInfo e flow ccy p l k = Inr info"
proof -
  from assms have a: "accrualCheck flow" and r: "recognised flow" by (simp_all add: classifies_def)
  from commonInfo_pass [OF a] obtain info where
    i: "commonInfo e flow ccy p l k = Inr info" by blast
  show ?thesis
  proof (cases "terminalCoupon (stripCapFloor (stripStripped (stripFxLinked flow)))")
    case True
    from couponInfo_terminal [OF True] obtain j where
      "couponInfo e info (fst (unwrapCapFloor (unwrapStripped (unwrapFxLinked e (noWrapper, flow)))))
              (stripCapFloor (stripStripped (stripFxLinked flow))) l k = Inr j" by blast
    with i unwrap_all_snd [of e noWrapper flow] show ?thesis
      by (cases flow) (simp_all add: createCashflowInfo_def case_prod_beta Let_def)
  next
    case False
    with r i show ?thesis
      by (cases flow) (simp_all add: createCashflowInfo_def Let_def)
  qed
qed

lemma createCashflowInfo_error_kind:
  assumes "createCashflowInfo e flow ccy p l k = Inl err"
  shows "err = UnhandledCoupon l k \<or> err = AccrualStartNotBeforePayDate l k"
proof (cases "recognised flow")
  case False
  from createCashflowInfo_unrecognised [OF False, of e ccy p l k] assms show ?thesis
    by (simp add: classification_error_def split: if_splits)
next
  case True
  show ?thesis
  proof (cases "accrualCheck flow")
    case a: True
    with True have "classifies flow" by (simp add: classifies_def)
    from createCashflowInfo_classifies [OF this, of e ccy p l k] assms show ?thesis by simp
  next
    case False
    with assms show ?thesis by (simp add: createCashflowInfo_def commonInfo_fail)
  qed
qed

lemma classify_leg_error_kind:
  "classify_leg e ccy p l flows n acc = Inl err \<Longrightarrow>
   \<exists>k. err = UnhandledCoupon l k \<or> err = AccrualStartNotBeforePayDate l k"
proof (induction flows arbitrary: n acc)
  case Nil
  then show ?case by simp
next
  case (Cons flow flows)
  show ?case
  proof (cases "date_le (date (flowData flow)) (referenceDate e)")
    case True
    with Cons show ?thesis by simp
  next
    case False
    show ?thesis
    proof (cases "createCashflowInfo e flow ccy p l n")
      case (Inl x)
      with False Cons.prems have "err = x" by simp
      with createCashflowInfo_error_kind [OF Inl] show ?thesis by blast
    next
      case (Inr info)
      with False Cons show ?thesis by simp
    qed
  qed
qed

lemma classify_leg_unrecognised:
  "flow \<in> set flows \<Longrightarrow> alive e flow \<Longrightarrow> \<not> recognised flow \<Longrightarrow>
   \<exists>err. classify_leg e ccy p l flows n acc = Inl err"
proof (induction flows arbitrary: n acc)
  case Nil
  then show ?case by simp
next
  case (Cons f flows)
  show ?case
  proof (cases "f = flow")
    case True
    with Cons.prems createCashflowInfo_unrecognised [of flow e ccy p l n] show ?thesis
      by (simp add: alive_def)
  next
    case False
    with Cons.prems have "flow \<in> set flows" by simp
    from Cons.IH [OF this Cons.prems(2,3)] show ?thesis
      by (auto split: sum.splits)
  qed
qed

lemma classify_leg_good_prefix:
  "\<forall>f \<in> set A. alive e f \<longrightarrow> classifies f \<Longrightarrow>
   \<exists>acc'. classify_leg e ccy p l (A @ rest) n acc
            = classify_leg e ccy p l rest (n + length (filter (alive e) A)) acc'"
proof (induction A arbitrary: n acc)
  case Nil
  show ?case by (rule exI [of _ acc]) simp
next
  case (Cons f A)
  from Cons.prems have g: "\<forall>f \<in> set A. alive e f \<longrightarrow> classifies f" by simp
  show ?case
  proof (cases "alive e f")
    case False
    with Cons.IH [OF g, of n acc] show ?thesis by (simp add: alive_def)
  next
    case True
    with Cons.prems have "classifies f" by simp
    from createCashflowInfo_classifies [OF this, of e ccy p l n] obtain info where
      i: "createCashflowInfo e f ccy p l n = Inr info" by blast
    from Cons.IH [OF g, of "n + 1" "acc @ [info]"] True i show ?thesis
      by (simp add: alive_def)
  qed
qed

lemma classify_leg_first_failure:
  assumes "\<forall>f \<in> set A. alive e f \<longrightarrow> classifies f" and "alive e flow" and "\<not> recognised flow"
  shows "classify_leg e ccy p l (A @ flow # B) n acc
           = Inl (classification_error flow l (n + length (filter (alive e) A)))"
proof -
  from classify_leg_good_prefix [OF assms(1), of ccy p l "flow # B" n acc] obtain acc' where
    "classify_leg e ccy p l (A @ flow # B) n acc
       = classify_leg e ccy p l (flow # B) (n + length (filter (alive e) A)) acc'" by blast
  with assms(2) createCashflowInfo_unrecognised [OF assms(3)] show ?thesis
    by (simp add: alive_def)
qed

lemma classify_legs_error_kind:
  "classify_legs e legs l acc = Inl err \<Longrightarrow>
   l + length legs \<le> length (currency e) \<Longrightarrow> l + length legs \<le> length (payer' e) \<Longrightarrow>
   \<exists>l' k. err = UnhandledCoupon l' k \<or> err = AccrualStartNotBeforePayDate l' k"
proof (induction legs arbitrary: l acc)
  case Nil
  then show ?case by simp
next
  case (Cons flows legs)
  from Cons.prems(2,3) have v: "vec_at (currency e) l = Inr (currency e ! l)"
    "vec_at (payer' e) l = Inr (payer' e ! l)" by (simp_all add: vec_at_def)
  show ?case
  proof (cases "classify_leg e (currency e ! l) (payer' e ! l) l flows 0 acc")
    case (Inl x)
    with v Cons.prems(1) have "err = x" by simp
    with classify_leg_error_kind [OF Inl] show ?thesis by blast
  next
    case (Inr acc')
    with v Cons.prems have "classify_legs e legs (l + 1) acc' = Inl err"
      "l + 1 + length legs \<le> length (currency e)" "l + 1 + length legs \<le> length (payer' e)"
      by simp_all
    from Cons.IH [OF this] show ?thesis .
  qed
qed

lemma classify_legs_unrecognised:
  "flows \<in> set legs \<Longrightarrow> flow \<in> set flows \<Longrightarrow> alive e flow \<Longrightarrow> \<not> recognised flow \<Longrightarrow>
   l + length legs \<le> length (currency e) \<Longrightarrow> l + length legs \<le> length (payer' e) \<Longrightarrow>
   \<exists>err. classify_legs e legs l acc = Inl err"
proof (induction legs arbitrary: l acc)
  case Nil
  then show ?case by simp
next
  case (Cons fs legs)
  from Cons.prems(5,6) have v: "vec_at (currency e) l = Inr (currency e ! l)"
    "vec_at (payer' e) l = Inr (payer' e ! l)" by (simp_all add: vec_at_def)
  show ?case
  proof (cases "classify_leg e (currency e ! l) (payer' e ! l) l fs 0 acc")
    case (Inl x)
    with v show ?thesis by simp
  next
    case (Inr acc')
    have "fs \<noteq> flows"
    proof
      assume "fs = flows"
      with classify_leg_unrecognised [OF Cons.prems(2,3,4), of "currency e ! l" "payer' e ! l" l 0 acc] Inr
      show False by simp
    qed
    with Cons.prems(1) have m: "flows \<in> set legs" by simp
    from Cons.prems(5,6) have "l + 1 + length legs \<le> length (currency e)"
      "l + 1 + length legs \<le> length (payer' e)" by simp_all
    from Cons.IH [OF m Cons.prems(2,3,4) this, of acc'] v Inr show ?thesis by simp
  qed
qed

lemma classify_legs_first_failure:
  "\<forall>fs \<in> set LA. \<forall>f \<in> set fs. alive e f \<longrightarrow> classifies f \<Longrightarrow>
   \<forall>f \<in> set A. alive e f \<longrightarrow> classifies f \<Longrightarrow> alive e flow \<Longrightarrow> \<not> recognised flow \<Longrightarrow>
   l + length (LA @ (A @ flow # B) # LB) \<le> length (currency e) \<Longrightarrow>
   l + length (LA @ (A @ flow # B) # LB) \<le> length (payer' e) \<Longrightarrow>
   classify_legs e (LA @ (A @ flow # B) # LB) l acc
     = Inl (classification_error flow (l + length LA) (length (filter (alive e) A)))"
proof (induction LA arbitrary: l acc)
  case Nil
  from Nil.prems(5,6) have v: "vec_at (currency e) l = Inr (currency e ! l)"
    "vec_at (payer' e) l = Inr (payer' e ! l)" by (simp_all add: vec_at_def)
  from classify_leg_first_failure [OF Nil.prems(2,3,4), of "currency e ! l" "payer' e ! l" l B 0 acc] v
  show ?case by simp
next
  case (Cons fs LA)
  from Cons.prems(5,6) have v: "vec_at (currency e) l = Inr (currency e ! l)"
    "vec_at (payer' e) l = Inr (payer' e ! l)" by (simp_all add: vec_at_def)
  from Cons.prems(1) have g: "\<forall>f \<in> set fs. alive e f \<longrightarrow> classifies f"
    and g': "\<forall>fs \<in> set LA. \<forall>f \<in> set fs. alive e f \<longrightarrow> classifies f" by simp_all
  from classify_leg_good_prefix [OF g, of "currency e ! l" "payer' e ! l" l "[]" 0 acc]
  obtain acc' where a: "classify_leg e (currency e ! l) (payer' e ! l) l fs 0 acc = Inr acc'"
    by auto
  from Cons.prems(5,6) have "l + 1 + length (LA @ (A @ flow # B) # LB) \<le> length (currency e)"
    "l + 1 + length (LA @ (A @ flow # B) # LB) \<le> length (payer' e)" by simp_all
  from Cons.IH [OF g' Cons.prems(2,3,4) this, of acc'] v a show ?case by simp
qed

text \<open>
  Claim C8, as amended: for a flow of no supported shape \<^verbatim>\<open>createCashflowInfo\<close> ends with
  an error that carries the leg and the cash flow number it was called with: the error
  for an unhandled coupon when the flow passes the date check, the error of the date check
  otherwise. When the legs of an engine hold such a flow that is not paid yet, and the
  currencies and payer flags match the legs, \<open>calculate\<close> ends with an error of one of
  these two kinds and has drawn no path. The error is that of this flow, with the number
  of its leg and its number among the flows of the leg that are not paid yet, when every
  such flow before it classifies.
\<close>

theorem unrecognised_flow_aborts:
  assumes "length (currency e) = length (leg e)" and "length (payer' e) = length (leg e)"
    and "flows \<in> set (leg e)" and "flow \<in> set flows"
    and "alive e flow" and "\<not> recognised flow"
  shows "createCashflowInfo e flow ccy p l k = Inl (classification_error flow l k) \<and>
         (\<exists>l' k'. calculate e = (Inl (UnhandledCoupon l' k'), 0) \<or>
                  calculate e = (Inl (AccrualStartNotBeforePayDate l' k'), 0)) \<and>
         (\<forall>LA A B LB.
            leg e = LA @ (A @ flow # B) # LB \<and>
            (\<forall>fs \<in> set LA. \<forall>f \<in> set fs. alive e f \<longrightarrow> classifies f) \<and>
            (\<forall>f \<in> set A. alive e f \<longrightarrow> classifies f)
            \<longrightarrow> calculate e
                  = (Inl (classification_error flow (length LA) (length (filter (alive e) A))), 0))"
proof (intro conjI)
  show "createCashflowInfo e flow ccy p l k = Inl (classification_error flow l k)"
    by (rule createCashflowInfo_unrecognised [OF assms(6)])
next
  from assms(1,2) have s: "0 + length (leg e) \<le> length (currency e)"
    "0 + length (leg e) \<le> length (payer' e)" by simp_all
  from classify_legs_unrecognised [OF assms(3-6) s, of "[]"] obtain err where
    c: "classify_legs e (leg e) 0 [] = Inl err" by blast
  from classify_legs_error_kind [OF c s] obtain l' k' where
    "err = UnhandledCoupon l' k' \<or> err = AccrualStartNotBeforePayDate l' k'" by blast
  with c assms(1,2) show "\<exists>l' k'. calculate e = (Inl (UnhandledCoupon l' k'), 0) \<or>
                  calculate e = (Inl (AccrualStartNotBeforePayDate l' k'), 0)"
    by (auto simp: calculate_def)
next
  show "\<forall>LA A B LB.
            leg e = LA @ (A @ flow # B) # LB \<and>
            (\<forall>fs \<in> set LA. \<forall>f \<in> set fs. alive e f \<longrightarrow> classifies f) \<and>
            (\<forall>f \<in> set A. alive e f \<longrightarrow> classifies f)
            \<longrightarrow> calculate e
                  = (Inl (classification_error flow (length LA) (length (filter (alive e) A))), 0)"
  proof (intro allI impI)
    fix LA A B LB
    assume h: "leg e = LA @ (A @ flow # B) # LB \<and>
            (\<forall>fs \<in> set LA. \<forall>f \<in> set fs. alive e f \<longrightarrow> classifies f) \<and>
            (\<forall>f \<in> set A. alive e f \<longrightarrow> classifies f)"
    with assms(1,2) have s: "0 + length (LA @ (A @ flow # B) # LB) \<le> length (currency e)"
      "0 + length (LA @ (A @ flow # B) # LB) \<le> length (payer' e)" by simp_all
    from h have g1: "\<forall>fs \<in> set LA. \<forall>f \<in> set fs. alive e f \<longrightarrow> classifies f"
      and g2: "\<forall>f \<in> set A. alive e f \<longrightarrow> classifies f" by blast+
    from classify_legs_first_failure [OF g1 g2 assms(5,6) s, of "[]"] h assms(1,2)
    show "calculate e
            = (Inl (classification_error flow (length LA) (length (filter (alive e) A))), 0)"
      by (simp add: calculate_def)
  qed
qed

subsection \<open>The statements at the example engines\<close>

theorem calculate_without_exercise_witness:
  "calculate swapEngine = (Inr swapResults, 2) \<and> exercise swapEngine = None \<and>
   resultValue' swapResults = resultUnderlyingNpv swapResults \<and>
   resultValue (amcCalculator swapResults) = resultUnderlyingNpv swapResults"
proof -
  have r: "calculate swapEngine = (Inr swapResults, 2)"
    by (simp add: swapEngine_def swapResults_def exampleEngine_def blankFlow_def engine_defs)
  have n: "exercise swapEngine = None"
    by (simp add: swapEngine_def)
  from calculate_without_exercise [OF r n] r n show ?thesis by simp
qed

lemma exampleInfo_created:
  "createCashflowInfo exampleEngine
     (SimpleCashFlow (blankFlow\<lparr> date := Date 2027 1 1, amount := 100 \<rparr>)) ''EUR'' 1 0 0
   = Inr exampleInfo"
  by (simp add: exampleInfo_def exampleEngine_def blankFlow_def engine_defs)

lemma example_walk:
  "calibration_walk exampleEngine [exampleInfo] [[[1, - 1]], [[1, - 1]]] [1, 2] [1] [1]
     ([] @ 1 # []) (calibration_init 2 1 1) = Inr exampleWalked"
  by (simp add: exampleInfo_def exampleWalked_def exampleEngine_def blankFlow_def engine_defs)

lemma example_regressor:
  "regressor_at exampleEngine [[[1, - 1]], [[1, - 1]]] [1, 2] 1 = Inr [[1, - 1]]"
  by (simp add: exampleEngine_def engine_defs)

theorem calibration_exercise_rule_witness:
  "calibration_walk exampleEngine [exampleInfo] [[[1, - 1]], [[1, - 1]]] [1, 2] [1] [1] [1]
     (calibration_init 2 1 1) = Inr exampleWalked \<and>
   pathValueOption (calibration_init 2 1 1) = [0, 0] \<and>
   pathValueUndExInto exampleWalked = [100, 100] \<and>
   pathValueOption exampleWalked = [100, 0] \<and>
   exercise_rule exampleEngine [[1, - 1]] (calibration_init 2 1 1) exampleWalked 0 \<and>
   exercise_rule exampleEngine [[1, - 1]] (calibration_init 2 1 1) exampleWalked 1"
proof -
  have m: "(1::real) \<in> set [1]" by simp
  from calibration_exercise_rule [OF example_walk m example_regressor]
  obtain st st' where
    a: "calibration_walk exampleEngine [exampleInfo] [[[1, - 1]], [[1, - 1]]] [1, 2] [1] [1] [] 
          (calibration_init 2 1 1) = Inr st"
    and b: "calibration_walk exampleEngine [exampleInfo] [[[1, - 1]], [[1, - 1]]] [1, 2] [1] [1] []
          st' = Inr exampleWalked"
    and r: "\<forall>p. p < length (pathValueOption st') \<longrightarrow>
              exercise_rule exampleEngine [[1, - 1]] st st' p"
    by blast
  from a have st: "st = calibration_init 2 1 1" by (simp add: calibration_walk_def)
  from b have st': "st' = exampleWalked" by (simp add: calibration_walk_def)
  have l: "length (pathValueOption exampleWalked) = 2" by (simp add: exampleWalked_def)
  from r st st' l have
    "exercise_rule exampleEngine [[1, - 1]] (calibration_init 2 1 1) exampleWalked 0"
    "exercise_rule exampleEngine [[1, - 1]] (calibration_init 2 1 1) exampleWalked 1"
    by simp_all
  moreover have "pathValueOption (calibration_init 2 1 1) = [0, 0]"
    by (simp add: calibration_init_def rv_const_def numeral_2_eq_2)
  moreover have "pathValueUndExInto exampleWalked = [100, 100]"
    "pathValueOption exampleWalked = [100, 0]"
    by (simp_all add: exampleWalked_def)
  ultimately show ?thesis using example_walk by simp
qed

text \<open>
  Claim C7 fails on the code for a coupon whose accrual start and pay date have the same
  time: under the 30E/360 day counter of the example engine the coupon from 30 to 31
  January 2025 passes the date check of \<^verbatim>\<open>createCashflowInfo\<close>, its pay time is 29/360
  and its exercise-into cutoff is 29/360 + 1E-10, after the pay time. At the time 29/360
  of a walk the cutoff is after the time and the pay time is not, against the comment of
  \<^verbatim>\<open>calculate\<close> that names this as what \<^verbatim>\<open>createCashflowInfo\<close> must ensure.
\<close>

theorem stub_coupon_cutoff_after_pay_time:
  "(case createCashflowInfo exampleEngine stubCoupon ''EUR'' 1 0 0 of
      Inl err \<Rightarrow> False
    | Inr info \<Rightarrow>
        payTime info = 29 / 360 \<and>
        exIntoCriterionTime info = 29 / 360 + 1 / 10 ^ 10 \<and>
        payTime info < exIntoCriterionTime info)"
  by (simp add: stubCoupon_def exampleEngine_def blankFlow_def engine_defs tinyTime_def)

theorem unrecognised_flow_aborts_witness:
  "alive unsupportedEngine unsupportedFlow \<and>
   createCashflowInfo unsupportedEngine unsupportedFlow ''EUR'' 1 0 1 = Inl (UnhandledCoupon 0 1) \<and>
   calculate unsupportedEngine = (Inl (UnhandledCoupon 0 1), 0)"
proof -
  let ?paid = "SimpleCashFlow (blankFlow\<lparr> date := Date 2024 1 1, amount := 100 \<rparr>)"
  let ?good = "SimpleCashFlow (blankFlow\<lparr> date := Date 2027 1 1, amount := 100 \<rparr>)"
  have h1: "length (currency unsupportedEngine) = length (leg unsupportedEngine)"
    and h2: "length (payer' unsupportedEngine) = length (leg unsupportedEngine)"
    and h3: "[?paid, ?good, unsupportedFlow] \<in> set (leg unsupportedEngine)"
    by (simp_all add: unsupportedEngine_def exampleEngine_def)
  have h4: "unsupportedFlow \<in> set [?paid, ?good, unsupportedFlow]" by simp
  have h5: "alive unsupportedEngine unsupportedFlow"
    by (simp add: alive_def unsupportedEngine_def exampleEngine_def unsupportedFlow_def
        blankFlow_def date_le_def date_less_def)
  have h6: "\<not> recognised unsupportedFlow" by (simp add: unsupportedFlow_def)
  have c: "classification_error unsupportedFlow 0 1 = UnhandledCoupon 0 1"
    by (simp add: classification_error_def accrualCheck_def unsupportedFlow_def)
  note t = unrecognised_flow_aborts [OF h1 h2 h3 h4 h5 h6, of "''EUR''" 1 0 1]
  from t c have a: "createCashflowInfo unsupportedEngine unsupportedFlow ''EUR'' 1 0 1
                      = Inl (UnhandledCoupon 0 1)" by simp
  from t have "\<forall>LA A B LB.
      leg unsupportedEngine = LA @ (A @ unsupportedFlow # B) # LB \<and>
      (\<forall>fs \<in> set LA. \<forall>f \<in> set fs. alive unsupportedEngine f \<longrightarrow> classifies f) \<and>
      (\<forall>f \<in> set A. alive unsupportedEngine f \<longrightarrow> classifies f)
      \<longrightarrow> calculate unsupportedEngine
            = (Inl (classification_error unsupportedFlow (length LA)
                      (length (filter (alive unsupportedEngine) A))), 0)"
    by blast
  from this [rule_format, of "[]" "[?paid, ?good]" "[]" "[]"]
  have "calculate unsupportedEngine
          = (Inl (classification_error unsupportedFlow 0
                    (length (filter (alive unsupportedEngine) [?paid, ?good]))), 0)"
    by (simp add: unsupportedEngine_def exampleEngine_def alive_def classifies_def
        accrualCheck_def blankFlow_def date_le_def date_less_def)
  moreover have "length (filter (alive unsupportedEngine) [?paid, ?good]) = 1"
    by (simp add: unsupportedEngine_def exampleEngine_def alive_def blankFlow_def date_le_def date_less_def)
  ultimately have b: "calculate unsupportedEngine = (Inl (UnhandledCoupon 0 1), 0)"
    using c by simp
  from h5 a b show ?thesis by simp
qed

text \<open>
  Claim C8 as stated fails for a coupon of no supported class whose accrual does not start
  before its pay date: the date check comes first, and the valuation ends with its error,
  not with the error for an unhandled coupon.
\<close>

theorem advance_coupon_counterexample:
  "alive exampleEngine advanceCoupon \<and> \<not> recognised advanceCoupon \<and>
   createCashflowInfo exampleEngine advanceCoupon ''EUR'' 1 0 0
     = Inl (AccrualStartNotBeforePayDate 0 0) \<and>
   calculate (exampleEngine\<lparr> leg := [[advanceCoupon]] \<rparr>)
     = (Inl (AccrualStartNotBeforePayDate 0 0), 0) \<and>
   AccrualStartNotBeforePayDate 0 0 \<noteq> UnhandledCoupon 0 0"
  by (simp add: advanceCoupon_def exampleEngine_def blankFlow_def alive_def engine_defs)

end
